theory Spec2Isabelle
  imports Main "HOL-Library.AList"
begin

section \<open>Find and replace widgets of codimension (src/ui/findreplacewidget.py)\<close>

text \<open>
  The development embeds the search and replace controller of
  \<^verbatim>\<open>src/src/ui/findreplacewidget.py\<close>: the classes \<^verbatim>\<open>SearchAttr\<close>,
  \<^verbatim>\<open>SearchSupport\<close>, \<^verbatim>\<open>FindReplaceBase\<close> and \<^verbatim>\<open>ReplaceWidget\<close>.

  The text editor, the editors manager, the status bar, the project object and the Qt
  controls are collaborators whose code is not part of the sources.  Every call the
  widget makes on one of them is appended to a log of events; what a call on a text
  editor answers and how it changes that editor is a parameter of the model
  (\<open>editor_ops\<close>), so that every theorem holds for any editor.

  What the controls show (the text of the two combo boxes, the state of the check
  boxes) is read from fields of the state; the calls that change a control are logged
  and not interpreted.  A signal is logged when it is emitted; the slots connected to it
  are not run.  A function that may raise returns \<open>Inl\<close> of the error, without a state:
  what the function had changed before it raised is not kept.
\<close>

subsection \<open>Data model\<close>

type_synonym uuid = string
type_synonym ref = nat

text \<open>A search target \<^verbatim>\<open>[line, pos, length]\<close>, as the editor returns it.\<close>

type_synonym target = "int \<times> int \<times> int"

definition noMatch :: target where
  "noMatch = (-1, -1, -1)"

text \<open>Class \<^verbatim>\<open>SearchAttr\<close>: the search attributes of a single editor.\<close>

record SearchAttr =
  line :: int
  pos :: int
  firstLine :: int
  match :: target

definition newSearchAttr :: SearchAttr where
  "newSearchAttr = \<lparr>line = -1, pos = -1, firstLine = -1, match = noMatch\<rparr>"

text \<open>
  Class \<^verbatim>\<open>SearchSupport\<close> holds the dictionary \<^verbatim>\<open>editorSearchAttributes\<close>.  A Python
  dictionary keeps its keys in insertion order and the code iterates over it, so it is
  an association list: storing under a present key replaces the value in place, storing
  under a new key appends.
\<close>

type_synonym SearchSupport = "(uuid \<times> SearchAttr) list"

datatype error = KeyError | AttributeError

definition add :: "uuid \<Rightarrow> SearchAttr \<Rightarrow> SearchSupport \<Rightarrow> SearchSupport" where
  "add u a s = AList.update u a s"

definition hasEditor :: "uuid \<Rightarrow> SearchSupport \<Rightarrow> bool" where
  "hasEditor u s = (map_of s u \<noteq> None)"

definition get :: "uuid \<Rightarrow> SearchSupport \<Rightarrow> error + SearchAttr" where
  "get u s = (case map_of s u of None \<Rightarrow> Inl KeyError | Some a \<Rightarrow> Inr a)"

definition delete :: "uuid \<Rightarrow> SearchSupport \<Rightarrow> SearchSupport" where
  "delete u s = (if hasEditor u s then AList.delete u s else s)"

definition clearStartPositions :: "SearchSupport \<Rightarrow> SearchSupport" where
  "clearStartPositions s = map (\<lambda>(key, attributes). (key, attributes\<lparr>line := -1, pos := -1\<rparr>)) s"

text \<open>
  A \<^verbatim>\<open>SearchAttr\<close> object is reachable only through the dictionary entry it is stored
  under.  Assigning to a field of the object that \<^verbatim>\<open>get(uuid)\<close> returned therefore
  changes the entry of \<open>uuid\<close>; \<open>modify\<close> is that assignment.
\<close>

definition modify :: "uuid \<Rightarrow> (SearchAttr \<Rightarrow> SearchAttr) \<Rightarrow> SearchSupport \<Rightarrow> SearchSupport" where
  "modify u f s = AList.map_entry u f s"

subsection \<open>Collaborators\<close>

datatype indicator = SearchIndicator | MatchIndicator

text \<open>
  The methods of the text editor that the widget calls and that may change the editor.
  \<open>HighlightMatch\<close> carries the two optional trailing arguments of the eight argument
  form.
\<close>

datatype call =
    ClearSearchIndicators
  | ClearAllIndicators indicator
  | SetCursorPosition int int
  | EnsureLineOnScreen int
  | HighlightMatch string int int bool bool bool "(bool \<times> bool) option"
  | SetSelection int int int int
  | ClearIndicatorRange indicator int int
  | SetIndicatorRange indicator int int
  | GetTargets string bool bool bool int int int int
  | FindFirstTarget string bool bool bool int int
  | FindNextTarget
  | ReplaceTarget string
  | BeginUndoAction
  | EndUndoAction

datatype control =
    FindtextCombo | ReplaceCombo | FindNextButton | FindPrevButton
  | CaseCheckBox | WordCheckBox | RegexpCheckBox
  | ReplaceButton | ReplaceAndMoveButton | ReplaceAllButton

datatype event =
    Editor ref call
  | ShowStatusBarMessage string "int option"
  | ClearStatusBarMessage int
  | IncSearchDone bool
  | SetEnabled control bool
  | ComboClear control
  | ComboAddItems control "string list"
  | SetFindHistory "string list"
  | SetReplaceHistory "string list" "string list"

text \<open>
  What the editor does on a call: \<open>effect\<close> is the editor after the call, the
  \<open>answer\<close> functions are the value the call returns, both computed from the editor
  before the call.  The remaining fields are the read-only queries the widget uses
  (\<^verbatim>\<open>getLine\<close> and \<^verbatim>\<open>getPos\<close> are asked of the tab widget that owns the editor;
  the tab and its editor are one object here).
\<close>

record 'e editor_ops =
  effect :: "call \<Rightarrow> 'e \<Rightarrow> 'e"
  answerBool :: "call \<Rightarrow> 'e \<Rightarrow> bool"
  answerMatch :: "call \<Rightarrow> 'e \<Rightarrow> target"
  answerTargets :: "call \<Rightarrow> 'e \<Rightarrow> target list"
  getLine :: "'e \<Rightarrow> int"
  getPos :: "'e \<Rightarrow> int"
  firstVisibleLine :: "'e \<Rightarrow> int"
  positionFromLineIndex :: "'e \<Rightarrow> int \<Rightarrow> int \<Rightarrow> int"
  lineIndexFromPosition :: "'e \<Rightarrow> int \<Rightarrow> int \<times> int"
  stringAt :: "'e \<Rightarrow> int \<Rightarrow> int \<Rightarrow> string"

text \<open>
  The widget together with the objects it shares with its environment.
  \<^item> \<open>isTextEditor\<close>, \<open>editor\<close>, \<open>editorUUID\<close>, \<open>findBackward\<close>, \<open>skip\<close>,
    \<open>searchSupport\<close>, \<open>replaceCouldBeEnabled\<close> are the attributes of the widget;
    \<open>editor\<close> is a reference into \<open>editors\<close>, \<open>None\<close> for Python's \<^verbatim>\<open>None\<close>.
  \<^item> \<open>findHistory\<close> and \<open>replaceHistory\<close> are references to the list objects the widget
    got from the project; \<open>listObjs\<close> is the store of list objects.
  \<^item> \<open>findText\<close>, \<open>replaceText\<close>, \<open>regexpChecked\<close>, \<open>caseChecked\<close>, \<open>wordChecked\<close> are
    what \<^verbatim>\<open>currentText()\<close> and \<^verbatim>\<open>isChecked()\<close> of the controls answer.
  \<^item> \<open>editors\<close> is the store of editor objects and \<open>widgetByUUID\<close> the lookup
    \<^verbatim>\<open>editorsManager.getWidgetByUUID(uuid)\<close> followed by \<^verbatim>\<open>getEditor()\<close>, \<open>None\<close> when the
    manager has no widget.
  \<^item> \<open>events\<close> is the log of calls on collaborators, oldest first.
\<close>

record 'e state =
  isTextEditor :: bool
  editor :: "ref option"
  editorUUID :: uuid
  findBackward :: bool
  skip :: bool
  searchSupport :: SearchSupport
  replaceCouldBeEnabled :: bool
  findHistory :: ref
  replaceHistory :: ref
  listObjs :: "ref \<Rightarrow> string list"
  findText :: string
  replaceText :: string
  regexpChecked :: bool
  caseChecked :: bool
  wordChecked :: bool
  editors :: "ref \<Rightarrow> 'e"
  widgetByUUID :: "uuid \<Rightarrow> ref option"
  events :: "event list"

definition emit :: "event \<Rightarrow> 'e state \<Rightarrow> 'e state" where
  "emit ev w = w\<lparr>events := events w @ [ev]\<rparr>"

definition invoke :: "'e editor_ops \<Rightarrow> ref \<Rightarrow> call \<Rightarrow> 'e state \<Rightarrow> 'e state" where
  "invoke ops r c w =
     w\<lparr>editors := (editors w)(r := effect ops c (editors w r)),
       events := events w @ [Editor r c]\<rparr>"

text \<open>
  Two views of the log: the calls made on editors, and what was sent to the status bar.
\<close>

fun editorCalls :: "event list \<Rightarrow> (ref \<times> call) list" where
  "editorCalls [] = []"
| "editorCalls (Editor r c # evs) = (r, c) # editorCalls evs"
| "editorCalls (ev # evs) = editorCalls evs"

fun statusBar :: "event list \<Rightarrow> event list" where
  "statusBar [] = []"
| "statusBar (ShowStatusBarMessage m t # evs) = ShowStatusBarMessage m t # statusBar evs"
| "statusBar (ClearStatusBarMessage n # evs) = ClearStatusBarMessage n # statusBar evs"
| "statusBar (ev # evs) = statusBar evs"

text \<open>Sequencing of steps that may raise: the second runs on the result of the first.\<close>

definition andThen :: "error + 'a \<Rightarrow> ('a \<Rightarrow> error + 'b) \<Rightarrow> error + 'b" where
  "andThen r f = (case r of Inl err \<Rightarrow> Inl err | Inr x \<Rightarrow> f x)"

text \<open>
  \<^verbatim>\<open>FindReplaceBase.updateStatus()\<close>, triggered when the current tab is changed.  The
  argument is what the editors manager answers for \<^verbatim>\<open>currentWidget()\<close>: whether its
  type is \<^verbatim>\<open>PlainTextEditor\<close> or \<^verbatim>\<open>VCSAnnotateViewer\<close>, its editor and its uuid.
\<close>

definition updateStatus :: "bool \<times> ref \<times> uuid \<Rightarrow> 'e state \<Rightarrow> 'e state" where
  "updateStatus currentWidget w0 =
     (case currentWidget of (isText, ed, u) \<Rightarrow>
        let w1 = w0\<lparr>isTextEditor := isText\<rparr>;
            w2 = (if isTextEditor w1 then w1\<lparr>editor := Some ed, editorUUID := u\<rparr>
                  else w1\<lparr>editor := None, editorUUID := []\<rparr>);
            w3 = emit (SetEnabled FindtextCombo (isTextEditor w2)) w2;
            textAvailable = (findText w3 \<noteq> []);
            w4 = emit (SetEnabled FindPrevButton (isTextEditor w3 \<and> textAvailable)) w3;
            w5 = emit (SetEnabled FindNextButton (isTextEditor w4 \<and> textAvailable)) w4;
            w6 = emit (SetEnabled CaseCheckBox (isTextEditor w5)) w5;
            w7 = emit (SetEnabled WordCheckBox (isTextEditor w6)) w6
        in emit (SetEnabled RegexpCheckBox (isTextEditor w7)) w7)"

subsection \<open>History\<close>

definition maxHistory :: nat where
  "maxHistory = 32"

text \<open>
  \<^verbatim>\<open>FindReplaceBase._addToHistory(combo, history, text)\<close>.  The parameter \<^verbatim>\<open>history\<close>
  is a reference to the caller's list: \<^verbatim>\<open>history.remove\<close> and \<^verbatim>\<open>history.insert\<close>
  change that list object in the store, whereas \<^verbatim>\<open>history = history[:self.maxHistory]\<close>
  binds the local name to a fresh list and leaves the caller's object as it is.
  \<open>shown\<close> is the list the local name denotes when the combo box is refilled.
\<close>

definition addToHistory :: "control \<Rightarrow> ref \<Rightarrow> string \<Rightarrow> 'e state \<Rightarrow> bool \<times> 'e state" where
  "addToHistory combo history text w0 =
     (let old = listObjs w0 history;
          (changes1, w1) =
            (if text \<in> set old then
               (if hd old \<noteq> text then
                  (True, w0\<lparr>listObjs := (listObjs w0)(history := text # remove1 text old)\<rparr>)
                else (False, w0))
             else (True, w0\<lparr>listObjs := (listObjs w0)(history := text # old)\<rparr>));
          (changes2, shown) =
            (if length (listObjs w1 history) > maxHistory then
               (True, take maxHistory (listObjs w1 history))
             else (changes1, listObjs w1 history));
          w2 = w1\<lparr>skip := True\<rparr>;
          w3 = emit (ComboClear combo) w2;
          w4 = emit (ComboAddItems combo shown) w3;
          w5 = w4\<lparr>skip := False\<rparr>
      in (changes2, w5))"

text \<open>\<^verbatim>\<open>ReplaceWidget.__updateReplaceHistory(text, replaceText)\<close>.\<close>

definition updateReplaceHistory :: "string \<Rightarrow> string \<Rightarrow> 'e state \<Rightarrow> 'e state" where
  "updateReplaceHistory text rText w0 =
     (let (changedWhat, w1) = addToHistory FindtextCombo (findHistory w0) text w0;
          (changedReplace, w2) = addToHistory ReplaceCombo (replaceHistory w1) rText w1
      in if changedWhat \<or> changedReplace then
           emit (SetReplaceHistory (listObjs w2 (findHistory w2))
                                   (listObjs w2 (replaceHistory w2))) w2
         else w2)"

subsection \<open>Incremental search\<close>

definition callBool :: "'e editor_ops \<Rightarrow> ref \<Rightarrow> call \<Rightarrow> 'e state \<Rightarrow> bool \<times> 'e state" where
  "callBool ops r c w = (answerBool ops c (editors w r), invoke ops r c w)"

definition callMatch :: "'e editor_ops \<Rightarrow> ref \<Rightarrow> call \<Rightarrow> 'e state \<Rightarrow> target \<times> 'e state" where
  "callMatch ops r c w = (answerMatch ops c (editors w r), invoke ops r c w)"

definition callTargets ::
  "'e editor_ops \<Rightarrow> ref \<Rightarrow> call \<Rightarrow> 'e state \<Rightarrow> target list \<times> 'e state" where
  "callTargets ops r c w = (answerTargets ops c (editors w r), invoke ops r c w)"

text \<open>\<^verbatim>\<open>FindReplaceBase._initialiseSearchAttributes(uuid)\<close>: creates a record if none existed.\<close>

definition initialiseSearchAttributes ::
  "'e editor_ops \<Rightarrow> uuid \<Rightarrow> 'e state \<Rightarrow> error + 'e state" where
  "initialiseSearchAttributes ops u w =
     (if hasEditor u (searchSupport w) then Inr w
      else
        case editor w of
          None \<Rightarrow> Inl AttributeError
        | Some ed \<Rightarrow>
            let searchAttributes =
                  newSearchAttr\<lparr>line := getLine ops (editors w ed),
                                pos := getPos ops (editors w ed),
                                firstLine := firstVisibleLine ops (editors w ed),
                                match := noMatch\<rparr>
            in Inr (w\<lparr>searchSupport := add u searchAttributes (searchSupport w)\<rparr>))"

text \<open>
  The block ``select the match starting from the end'', which \<^verbatim>\<open>_performSearch\<close>
  contains twice (lines 330--338 and 362--370).
\<close>

definition selectFromEnd :: "'e editor_ops \<Rightarrow> ref \<Rightarrow> target \<Rightarrow> 'e state \<Rightarrow> 'e state" where
  "selectFromEnd ops ed matchTarget w0 =
     (case matchTarget of (m0, m1, m2) \<Rightarrow>
        let tgtPos = positionFromLineIndex ops (editors w0 ed) m0 m1;
            (eLine, ePos) = lineIndexFromPosition ops (editors w0 ed) (tgtPos + m2);
            w1 = invoke ops ed (SetSelection eLine ePos m0 m1) w0
        in invoke ops ed (EnsureLineOnScreen m0) w1)"

text \<open>\<^verbatim>\<open>FindReplaceBase._performSearch(fromScratch)\<close>: the incremental search.\<close>

definition performSearch :: "'e editor_ops \<Rightarrow> bool \<Rightarrow> 'e state \<Rightarrow> error + 'e state" where
  "performSearch ops fromScratch w0 =
     (if \<not> isTextEditor w0 then Inr w0
      else
        let text = findText w0;
            isRegexp = regexpChecked w0;
            isCase = caseChecked w0;
            isWord = wordChecked w0;
            status = (text \<noteq> []);
            w1 = emit (SetEnabled FindNextButton status) w0;
            w2 = emit (SetEnabled FindPrevButton status) w1;
            w3 = (if fromScratch
                  then w2\<lparr>searchSupport := delete (editorUUID w2) (searchSupport w2)\<rparr>
                  else w2)
        in
        case initialiseSearchAttributes ops (editorUUID w3) w3 of
          Inl err \<Rightarrow> Inl err
        | Inr w4 \<Rightarrow>
        (case get (editorUUID w4) (searchSupport w4) of
          Inl err \<Rightarrow> Inl err
        | Inr searchAttributes \<Rightarrow>
            if \<not> fromScratch then
              (case editor w4 of
                 None \<Rightarrow> Inl AttributeError
               | Some ed \<Rightarrow>
                   if text = [] then
                     let w5 = invoke ops ed (ClearAllIndicators SearchIndicator) w4;
                         w6 = invoke ops ed (ClearAllIndicators MatchIndicator) w5;
                         w7 = invoke ops ed (SetCursorPosition (line searchAttributes)
                                                               (pos searchAttributes)) w6;
                         w8 = invoke ops ed (EnsureLineOnScreen (firstLine searchAttributes)) w7;
                         w9 = w8\<lparr>searchSupport :=
                                   modify (editorUUID w8) (\<lambda>a. a\<lparr>match := noMatch\<rparr>)
                                          (searchSupport w8)\<rparr>
                     in Inr (emit (IncSearchDone False) w9)
                   else
                     let (matchTarget, w5) =
                           callMatch ops ed
                             (HighlightMatch text (line searchAttributes) (pos searchAttributes)
                                             isRegexp isCase isWord None) w4;
                         w6 = w5\<lparr>searchSupport :=
                                   modify (editorUUID w5) (\<lambda>a. a\<lparr>match := matchTarget\<rparr>)
                                          (searchSupport w5)\<rparr>
                     in if matchTarget \<noteq> noMatch then
                          Inr (emit (IncSearchDone True) (selectFromEnd ops ed matchTarget w6))
                        else
                          let w7 = invoke ops ed (SetCursorPosition (line searchAttributes)
                                                                    (pos searchAttributes)) w6;
                              w8 = invoke ops ed
                                     (EnsureLineOnScreen (firstLine searchAttributes)) w7
                          in Inr (emit (IncSearchDone False) w8))
            else if text = [] then Inr (emit (IncSearchDone False) w4)
            else
              (case editor w4 of
                 None \<Rightarrow> Inl AttributeError
               | Some ed \<Rightarrow>
                   let (matchTarget, w5) =
                         callMatch ops ed
                           (HighlightMatch text (line searchAttributes) (pos searchAttributes)
                                           isRegexp isCase isWord None) w4;
                       w6 = w5\<lparr>searchSupport :=
                                 add (editorUUID w5) (searchAttributes\<lparr>match := matchTarget\<rparr>)
                                     (searchSupport w5)\<rparr>
                   in if matchTarget \<noteq> noMatch then
                        Inr (emit (IncSearchDone True) (selectFromEnd ops ed matchTarget w6))
                      else Inr (emit (IncSearchDone False) w6))))"

text \<open>
  The body of the \<^verbatim>\<open>for\<close> loop of \<^verbatim>\<open>_resetHighlightOtherEditors(uuid)\<close>, for one
  key of the dictionary.
\<close>

definition clearOther :: "'e editor_ops \<Rightarrow> uuid \<Rightarrow> uuid \<Rightarrow> 'e state \<Rightarrow> 'e state" where
  "clearOther ops u key w =
     (if key = u then w
      else case widgetByUUID w key of
             None \<Rightarrow> w
           | Some ed \<Rightarrow> invoke ops ed ClearSearchIndicators w)"

text \<open>
  \<^verbatim>\<open>FindReplaceBase._resetHighlightOtherEditors(uuid)\<close>: resets the highlights in all
  editors but the given one, and forgets what is memorised about them.
\<close>

definition resetHighlightOtherEditors ::
  "'e editor_ops \<Rightarrow> uuid \<Rightarrow> 'e state \<Rightarrow> error + 'e state" where
  "resetHighlightOtherEditors ops u w0 =
     (case (if hasEditor u (searchSupport w0)
            then map_sum id Some (get u (searchSupport w0))
            else Inr None) of
        Inl err \<Rightarrow> Inl err
      | Inr searchAttributes \<Rightarrow>
          let w1 = fold (clearOther ops u) (map fst (searchSupport w0)) w0;
              w2 = w1\<lparr>searchSupport := []\<rparr>
          in Inr (case searchAttributes of
                    None \<Rightarrow> w2
                  | Some a \<Rightarrow> w2\<lparr>searchSupport := add u a (searchSupport w2)\<rparr>))"

text \<open>\<^verbatim>\<open>FindReplaceBase._onEditTextChanged(text)\<close> and \<^verbatim>\<open>_onCheckBoxChange(newState)\<close>.\<close>

definition onEditTextChanged :: "'e editor_ops \<Rightarrow> 'e state \<Rightarrow> error + 'e state" where
  "onEditTextChanged ops w =
     (if \<not> skip w then
        case resetHighlightOtherEditors ops (editorUUID w) w of
          Inl err \<Rightarrow> Inl err
        | Inr w1 \<Rightarrow> performSearch ops False w1
      else Inr w)"

subsection \<open>Find next and find previous\<close>

text \<open>\<^verbatim>\<open>FindReplaceBase._advanceMatchIndicator(uuid, newLine, newPos, newLength)\<close>.\<close>

definition advanceMatchIndicator ::
  "'e editor_ops \<Rightarrow> uuid \<Rightarrow> int \<Rightarrow> int \<Rightarrow> int \<Rightarrow> 'e state \<Rightarrow> error + 'e state" where
  "advanceMatchIndicator ops u newLine newPos newLength w0 =
     (if \<not> hasEditor u (searchSupport w0) then Inr w0
      else
        case get u (searchSupport w0) of
          Inl err \<Rightarrow> Inl err
        | Inr searchAttributes \<Rightarrow>
        (case match searchAttributes of (m0, m1, m2) \<Rightarrow>
         (case widgetByUUID w0 u of
           None \<Rightarrow> Inr w0
         | Some ed \<Rightarrow>
             let w1 = (if match searchAttributes \<noteq> noMatch then
                         let tgtPos = positionFromLineIndex ops (editors w0 ed) m0 m1;
                             wa = invoke ops ed (ClearIndicatorRange MatchIndicator tgtPos m2) w0
                         in invoke ops ed (SetIndicatorRange SearchIndicator tgtPos m2) wa
                       else w0);
                 w2 = w1\<lparr>searchSupport :=
                           add u (searchAttributes\<lparr>match := (newLine, newPos, newLength)\<rparr>)
                               (searchSupport w1)\<rparr>;
                 tgtPos = positionFromLineIndex ops (editors w2 ed) newLine newPos;
                 w3 = invoke ops ed (ClearIndicatorRange SearchIndicator tgtPos newLength) w2;
                 w4 = invoke ops ed (SetIndicatorRange MatchIndicator tgtPos newLength) w3;
                 (eLine, ePos) = lineIndexFromPosition ops (editors w4 ed) (tgtPos + newLength);
                 w5 = invoke ops ed (SetSelection eLine ePos newLine newPos) w4
             in Inr (invoke ops ed (EnsureLineOnScreen newLine) w5))))"

text \<open>
  The last two statements of both directions of \<^verbatim>\<open>__searchFrom\<close>: advance the match
  indicator to the chosen target and return \<^verbatim>\<open>True\<close>.
\<close>

definition advanceTo :: "'e editor_ops \<Rightarrow> target \<Rightarrow> 'e state \<Rightarrow> error + bool \<times> 'e state" where
  "advanceTo ops t w =
     (case t of (t0, t1, t2) \<Rightarrow>
        (case advanceMatchIndicator ops (editorUUID w) t0 t1 t2 w of
           Inl err \<Rightarrow> Inl err
         | Inr w1 \<Rightarrow> Inr (True, w1)))"

text \<open>
  The statements of \<^verbatim>\<open>__searchFrom\<close> that run when both scans found nothing: the
  match of the record is reset and \<^verbatim>\<open>False\<close> is returned.
\<close>

definition nothingMatched :: "'e state \<Rightarrow> error + bool \<times> 'e state" where
  "nothingMatched w =
     (case get (editorUUID w) (searchSupport w) of
        Inl err \<Rightarrow> Inl err
      | Inr searchAttributes \<Rightarrow>
          Inr (False, w\<lparr>searchSupport :=
                          add (editorUUID w) (searchAttributes\<lparr>match := noMatch\<rparr>)
                              (searchSupport w)\<rparr>))"

text \<open>\<^verbatim>\<open>FindReplaceBase.__searchFrom(startLine, startPos, clearSBMessage)\<close>.\<close>

definition searchFrom ::
  "'e editor_ops \<Rightarrow> int \<Rightarrow> int \<Rightarrow> bool \<Rightarrow> 'e state \<Rightarrow> error + bool \<times> 'e state" where
  "searchFrom ops startLine startPos clearSBMessage w0 =
     (let text = findText w0;
          isRegexp = regexpChecked w0;
          isCase = caseChecked w0;
          isWord = wordChecked w0
      in
      case editor w0 of
        None \<Rightarrow> Inl AttributeError
      | Some ed \<Rightarrow>
          if \<not> findBackward w0 then
            let w1 = invoke ops ed (HighlightMatch text startLine startPos isRegexp isCase isWord
                                                   (Some (False, False))) w0;
                (targets, w2) =
                  callTargets ops ed (GetTargets text isRegexp isCase isWord
                                                 startLine startPos (-1) (-1)) w1
            in if length targets = 0 then
                 let w3 = emit (ShowStatusBarMessage
                            ''Reached the end of the document. Searching from the beginning...''
                            None) w2;
                     (targets', w4) =
                       callTargets ops ed (GetTargets text isRegexp isCase isWord
                                                      0 0 startLine startPos) w3
                 in if length targets' = 0 then nothingMatched w4
                    else advanceTo ops (targets' ! 0) w4
               else
                 let w3 = (if clearSBMessage then emit (ClearStatusBarMessage 0) w2 else w2)
                 in advanceTo ops (targets ! 0) w3
          else
            let w1 = invoke ops ed (HighlightMatch text startLine startPos isRegexp isCase isWord
                                                   (Some (False, False))) w0;
                (targets, w2) =
                  callTargets ops ed (GetTargets text isRegexp isCase isWord
                                                 0 0 startLine startPos) w1
            in if length targets = 0 then
                 let w3 = emit (ShowStatusBarMessage
                            ''Reached the beginning of the document. Searching from the end...''
                            None) w2;
                     (targets', w4) =
                       callTargets ops ed (GetTargets text isRegexp isCase isWord
                                                      startLine startPos (-1) (-1)) w3
                 in if length targets' = 0 then nothingMatched w4
                    else advanceTo ops (targets' ! (length targets' - 1)) w4
               else
                 let w3 = (if clearSBMessage then emit (ClearStatusBarMessage 0) w2 else w2)
                 in advanceTo ops (targets ! (length targets - 1)) w3)"

text \<open>
  The first part of \<^verbatim>\<open>__findNextPrev\<close> (lines 476--511, ``identify the search start
  point''): it yields the start line, the start position and the widget with the
  record of the current editor brought up to date.
\<close>

definition startPoint :: "'e editor_ops \<Rightarrow> 'e state \<Rightarrow> error + (int \<times> int) \<times> 'e state" where
  "startPoint ops w =
     (case editor w of
        None \<Rightarrow> Inl AttributeError
      | Some ed \<Rightarrow>
          let startLine = getLine ops (editors w ed);
              startPos = getPos ops (editors w ed)
          in
          if hasEditor (editorUUID w) (searchSupport w) then
            case get (editorUUID w) (searchSupport w) of
              Inl err \<Rightarrow> Inl err
            | Inr searchAttributes \<Rightarrow>
              (case match searchAttributes of (m0, m1, m2) \<Rightarrow>
                 if startLine = m0 \<and> startPos = m1 then
                   if \<not> findBackward w then
                     let p = positionFromLineIndex ops (editors w ed) startLine startPos;
                         adjustment = int (length (stringAt ops (editors w ed) p m2))
                     in Inr ((startLine, startPos + adjustment), w)
                   else Inr ((startLine, startPos), w)
                 else
                   let searchAttributes' =
                         searchAttributes\<lparr>line := startLine, pos := startPos,
                                           firstLine := firstVisibleLine ops (editors w ed),
                                           match := noMatch\<rparr>
                   in Inr ((startLine, startPos),
                           w\<lparr>searchSupport :=
                               add (editorUUID w) searchAttributes' (searchSupport w)\<rparr>))
          else
            let searchAttributes =
                  newSearchAttr\<lparr>line := startLine, pos := startPos,
                                firstLine := firstVisibleLine ops (editors w ed),
                                match := noMatch\<rparr>
            in Inr ((startLine, startPos),
                    w\<lparr>searchSupport := add (editorUUID w) searchAttributes (searchSupport w)\<rparr>))"

text \<open>\<^verbatim>\<open>FindReplaceBase.__findNextPrev(clearSBMessage)\<close>.\<close>

definition findNextPrev :: "'e editor_ops \<Rightarrow> bool \<Rightarrow> 'e state \<Rightarrow> error + bool \<times> 'e state" where
  "findNextPrev ops clearSBMessage w0 =
     (if \<not> isTextEditor w0 then Inr (False, w0)
      else
        case startPoint ops w0 of
          Inl err \<Rightarrow> Inl err
        | Inr ((startLine, startPos), w1) \<Rightarrow>
        (case searchFrom ops startLine startPos clearSBMessage w1 of
          Inl err \<Rightarrow> Inl err
        | Inr (found, w2) \<Rightarrow>
            if found then
              case get (editorUUID w2) (searchSupport w2) of
                Inl err \<Rightarrow> Inl err
              | Inr searchAttributes \<Rightarrow>
                (case editor w2 of
                   None \<Rightarrow> Inl AttributeError
                 | Some ed \<Rightarrow>
                     let searchAttributes' =
                           searchAttributes\<lparr>line := getLine ops (editors w2 ed),
                                             pos := getPos ops (editors w2 ed),
                                             firstLine := firstVisibleLine ops (editors w2 ed)\<rparr>
                     in Inr (True,
                             w2\<lparr>searchSupport :=
                                  add (editorUUID w2) searchAttributes' (searchSupport w2)\<rparr>))
            else Inr (False, w2)))"

text \<open>
  \<^verbatim>\<open>FindReplaceBase.onPrevNext()\<close> and \<^verbatim>\<open>FindReplaceBase.onNext(clearSBMessage)\<close>.  As in
  \<^verbatim>\<open>updateStatus\<close>, the first argument is what the editors manager answers for
  \<^verbatim>\<open>currentWidget()\<close>.
\<close>

definition onPrevNext :: "bool \<times> ref \<times> uuid \<Rightarrow> 'e state \<Rightarrow> bool" where
  "onPrevNext currentWidget w =
     (let txt = findText w
      in if txt = [] then False
         else case currentWidget of (isText, ed, u) \<Rightarrow> isText)"

definition onNext ::
  "'e editor_ops \<Rightarrow> bool \<times> ref \<times> uuid \<Rightarrow> bool \<Rightarrow> 'e state \<Rightarrow> error + 'e state" where
  "onNext ops currentWidget clearSBMessage w0 =
     (if \<not> onPrevNext currentWidget w0 then Inr w0
      else
        let w1 = w0\<lparr>findBackward := False\<rparr>
        in case findNextPrev ops clearSBMessage w1 of
             Inl err \<Rightarrow> Inl err
           | Inr (found, w2) \<Rightarrow>
               if \<not> found then
                 let w3 = emit (ShowStatusBarMessage ''No matches found'' (Some 0)) w2
                 in Inr (emit (IncSearchDone False) w3)
               else Inr (emit (IncSearchDone True) w2))"

text \<open>
  Names for what \<^verbatim>\<open>__searchFrom\<close> does in either direction: the range scanned first,
  the range scanned after wrapping around, the notice shown in between and the target
  chosen from a list of targets.
\<close>

definition firstScan :: "'e state \<Rightarrow> int \<Rightarrow> int \<Rightarrow> call" where
  "firstScan w sl sp =
     (if findBackward w
      then GetTargets (findText w) (regexpChecked w) (caseChecked w) (wordChecked w) 0 0 sl sp
      else GetTargets (findText w) (regexpChecked w) (caseChecked w) (wordChecked w)
                      sl sp (-1) (-1))"

definition secondScan :: "'e state \<Rightarrow> int \<Rightarrow> int \<Rightarrow> call" where
  "secondScan w sl sp =
     (if findBackward w
      then GetTargets (findText w) (regexpChecked w) (caseChecked w) (wordChecked w)
                      sl sp (-1) (-1)
      else GetTargets (findText w) (regexpChecked w) (caseChecked w) (wordChecked w) 0 0 sl sp)"

definition wrapNotice :: "'e state \<Rightarrow> event" where
  "wrapNotice w =
     (if findBackward w
      then ShowStatusBarMessage
             ''Reached the beginning of the document. Searching from the end...'' None
      else ShowStatusBarMessage
             ''Reached the end of the document. Searching from the beginning...'' None)"

definition pick :: "'e state \<Rightarrow> target list \<Rightarrow> target" where
  "pick w ts = (if findBackward w then ts ! (length ts - 1) else ts ! 0)"

definition highlightFrom :: "'e state \<Rightarrow> int \<Rightarrow> int \<Rightarrow> call" where
  "highlightFrom w sl sp =
     HighlightMatch (findText w) sl sp (regexpChecked w) (caseChecked w) (wordChecked w)
                    (Some (False, False))"

subsection \<open>Replace\<close>

text \<open>Python's \<^verbatim>\<open>str\<close> of an integer.\<close>

definition digit :: "nat \<Rightarrow> char" where
  "digit d = ''0123456789'' ! d"

fun strNat :: "nat \<Rightarrow> string" where
  "strNat n = (if n < 10 then [digit n] else strNat (n div 10) @ [digit (n mod 10)])"

definition str :: "int \<Rightarrow> string" where
  "str i = (if i < 0 then CHR ''-'' # strNat (nat (- i)) else strNat (nat i))"

text \<open>
  The \<^verbatim>\<open>while found\<close> loop of \<^verbatim>\<open>__onReplaceAll\<close>.  Whether it ends is up to the
  editor, so the loop carries fuel: one unit per iteration, \<open>None\<close> when the fuel is
  used up before \<^verbatim>\<open>findNextTarget\<close> has answered \<^verbatim>\<open>False\<close>.
\<close>

fun replaceLoop ::
  "nat \<Rightarrow> 'e editor_ops \<Rightarrow> ref \<Rightarrow> string \<Rightarrow> bool \<Rightarrow> int \<Rightarrow> 'e state \<Rightarrow> (int \<times> 'e state) option" where
  "replaceLoop fuel ops ed rText False count w = Some (count, w)"
| "replaceLoop 0 ops ed rText True count w = None"
| "replaceLoop (Suc fuel) ops ed rText True count w =
     (let w1 = invoke ops ed (ReplaceTarget rText) w;
          count1 = count + 1;
          (found1, w2) = callBool ops ed FindNextTarget w1
      in replaceLoop fuel ops ed rText found1 count1 w2)"

text \<open>
  One iteration of that loop, seen from the editor: a replacement followed by the search
  for the next target.
\<close>

definition replaceStep :: "'e editor_ops \<Rightarrow> string \<Rightarrow> 'e \<Rightarrow> 'e" where
  "replaceStep ops rText e = effect ops FindNextTarget (effect ops (ReplaceTarget rText) e)"

text \<open>\<^verbatim>\<open>ReplaceWidget.__onReplaceAll()\<close>.\<close>

definition onReplaceAll :: "nat \<Rightarrow> 'e editor_ops \<Rightarrow> 'e state \<Rightarrow> (error + 'e state) option" where
  "onReplaceAll fuel ops w0 =
     (let text = findText w0;
          isRegexp = regexpChecked w0;
          isCase = caseChecked w0;
          isWord = wordChecked w0;
          rText = replaceText w0;
          w1 = updateReplaceHistory text rText w0
      in
      (case editor w1 of
        None \<Rightarrow> Some (Inl AttributeError)
      | Some ed \<Rightarrow>
          let (found, w2) = callBool ops ed (FindFirstTarget text isRegexp isCase isWord 0 0) w1
          in if \<not> found then
               Some (Inr (emit (ShowStatusBarMessage ''No matches found. Nothing is replaced.''
                                                     None) w2))
             else
               let w3 = invoke ops ed BeginUndoAction w2
               in (case replaceLoop fuel ops ed rText found 0 w3 of
                    None \<Rightarrow> None
                  | Some (count, w4) \<Rightarrow>
                      let w5 = invoke ops ed EndUndoAction w4;
                          w6 = emit (SetEnabled ReplaceButton False) w5;
                          w7 = emit (SetEnabled ReplaceAndMoveButton False) w6;
                          w8 = w7\<lparr>replaceCouldBeEnabled := False\<rparr>;
                          suffix = (if count > 1 then ''s'' else []);
                          w9 = emit (ShowStatusBarMessage
                                       (str count @ '' occurrence'' @ suffix @ '' replaced.'')
                                       None) w8
                      in Some (Inr (emit (ClearStatusBarMessage 1) w9)))))"

text \<open>
  \<^verbatim>\<open>ReplaceWidget.__onReplace()\<close>.  \<^verbatim>\<open>searchAttributes.match[1] += len(replaceText)\<close>
  changes the match stored in the record of the current editor.
\<close>

definition onReplace :: "'e editor_ops \<Rightarrow> 'e state \<Rightarrow> error + 'e state" where
  "onReplace ops w0 =
     (let rText = replaceText w0;
          text = findText w0;
          isRegexp = regexpChecked w0;
          isCase = caseChecked w0;
          isWord = wordChecked w0
      in
      case get (editorUUID w0) (searchSupport w0) of
        Inl err \<Rightarrow> Inl err
      | Inr searchAttributes \<Rightarrow>
      (case match searchAttributes of (m0, m1, m2) \<Rightarrow>
       let w1 = updateReplaceHistory text rText w0 in
       (case editor w1 of
         None \<Rightarrow> Inl AttributeError
       | Some ed \<Rightarrow>
           let (found, w2) =
                 callBool ops ed (FindFirstTarget text isRegexp isCase isWord m0 m1) w1
           in if found then
                let (replaced, w3) = callBool ops ed (ReplaceTarget rText) w2;
                    w4 = (if replaced then
                            let wa = emit (ShowStatusBarMessage ''1 occurrence replaced.'' None) w3;
                                wb = emit (ClearStatusBarMessage 1) wa;
                                m1' = m1 + int (length rText);
                                wc = wb\<lparr>searchSupport :=
                                          modify (editorUUID wb) (\<lambda>a. a\<lparr>match := (m0, m1', m2)\<rparr>)
                                                 (searchSupport wb)\<rparr>;
                                wd = invoke ops ed (SetCursorPosition m0 m1') wc;
                                we = emit (SetEnabled ReplaceButton False) wd
                            in emit (SetEnabled ReplaceAndMoveButton False) we
                          else emit (ShowStatusBarMessage ''No occurrences replaced.'' None) w3)
                in Inr (w4\<lparr>searchSupport :=
                              modify (editorUUID w4) (\<lambda>a. a\<lparr>match := noMatch\<rparr>)
                                     (searchSupport w4)\<rparr>)
              else Inr w2)))"

subsection \<open>An editor to run the widget on\<close>

text \<open>
  The theorems below hold for every editor.  To run the functions on concrete inputs an
  editor is needed all the same; this one holds a single line of plain text (line 0),
  searches literally and ignores the search options.  Positions are columns.
\<close>

record doc =
  docText :: string
  docCursor :: "int \<times> int"
  docQuery :: string
  docTarget :: "(nat \<times> nat) option"
  docResume :: nat

definition occurrences :: "string \<Rightarrow> string \<Rightarrow> nat list" where
  "occurrences text s = [i \<leftarrow> [0..<length s]. take (length text) (drop i s) = text]"

definition firstFrom :: "string \<Rightarrow> string \<Rightarrow> nat \<Rightarrow> nat option" where
  "firstFrom text s n = (case [i \<leftarrow> occurrences text s. n \<le> i] of [] \<Rightarrow> None | i # _ \<Rightarrow> Some i)"

definition locate :: "string \<Rightarrow> nat \<Rightarrow> doc \<Rightarrow> doc" where
  "locate text n d =
     d\<lparr>docQuery := text,
       docTarget := map_option (\<lambda>i. (i, length text)) (firstFrom text (docText d) n)\<rparr>"

fun docEffect :: "call \<Rightarrow> doc \<Rightarrow> doc" where
  "docEffect (FindFirstTarget text isRegexp isCase isWord l p) d = locate text (nat p) d"
| "docEffect FindNextTarget d = locate (docQuery d) (docResume d) d"
| "docEffect (ReplaceTarget r) d =
     (case docTarget d of
        None \<Rightarrow> d
      | Some (i, n) \<Rightarrow>
          d\<lparr>docText := take i (docText d) @ r @ drop (i + n) (docText d),
            docTarget := None, docResume := i + length r\<rparr>)"
| "docEffect (SetCursorPosition l p) d = d\<lparr>docCursor := (l, p)\<rparr>"
| "docEffect (SetSelection el ep l p) d = d\<lparr>docCursor := (l, p)\<rparr>"
| "docEffect c d = d"

fun docBool :: "call \<Rightarrow> doc \<Rightarrow> bool" where
  "docBool (FindFirstTarget text isRegexp isCase isWord l p) d =
     (firstFrom text (docText d) (nat p) \<noteq> None)"
| "docBool FindNextTarget d = (firstFrom (docQuery d) (docText d) (docResume d) \<noteq> None)"
| "docBool (ReplaceTarget r) d = (docTarget d \<noteq> None)"
| "docBool c d = False"

fun docMatch :: "call \<Rightarrow> doc \<Rightarrow> target" where
  "docMatch (HighlightMatch text l p isRegexp isCase isWord opt) d =
     (case firstFrom text (docText d) (nat p) of
        None \<Rightarrow> noMatch
      | Some i \<Rightarrow> (0, int i, int (length text)))"
| "docMatch c d = noMatch"

fun docTargets :: "call \<Rightarrow> doc \<Rightarrow> target list" where
  "docTargets (GetTargets text isRegexp isCase isWord sl sp el ep) d =
     [(0, int i, int (length text)).
        i \<leftarrow> occurrences text (docText d), sp \<le> int i, ep < 0 \<or> int i < ep]"
| "docTargets c d = []"

definition docOps :: "doc editor_ops" where
  "docOps =
     \<lparr>effect = docEffect, answerBool = docBool, answerMatch = docMatch,
      answerTargets = docTargets,
      getLine = (\<lambda>d. fst (docCursor d)), getPos = (\<lambda>d. snd (docCursor d)),
      firstVisibleLine = (\<lambda>d. 0),
      positionFromLineIndex = (\<lambda>d l p. p),
      lineIndexFromPosition = (\<lambda>d p. (0, p)),
      stringAt = (\<lambda>d p n. take (nat n) (drop (nat p) (docText d)))\<rparr>"

text \<open>
  The same editor with every character stored in two bytes: columns count characters,
  positions and lengths count bytes.
\<close>

definition wideOps :: "doc editor_ops" where
  "wideOps =
     docOps\<lparr>positionFromLineIndex := (\<lambda>d l p. 2 * p),
            lineIndexFromPosition := (\<lambda>d p. (0, p div 2)),
            stringAt := (\<lambda>d p n. take (nat (n div 2)) (drop (nat (p div 2)) (docText d)))\<rparr>"

definition newDoc :: "string \<Rightarrow> doc" where
  "newDoc s = \<lparr>docText = s, docCursor = (0, 0), docQuery = [], docTarget = None, docResume = 0\<rparr>"

subsection \<open>Concrete states for the examples\<close>

text \<open>
  A widget that is not attached to any editor, with empty histories at the references
  0 and 1; the concrete states of the examples below are built from it.
\<close>

definition blank :: "'e \<Rightarrow> 'e state" where
  "blank e =
     \<lparr>isTextEditor = False, editor = None, editorUUID = [], findBackward = False,
      skip = False, searchSupport = [], replaceCouldBeEnabled = False,
      findHistory = 0, replaceHistory = 1, listObjs = (\<lambda>_. []),
      findText = [], replaceText = [], regexpChecked = False, caseChecked = False,
      wordChecked = False, editors = (\<lambda>_. e), widgetByUUID = (\<lambda>_. None), events = []\<rparr>"

text \<open>Thirty-two distinct strings: \<open>a\<close>, \<open>aa\<close>, \<open>aaa\<close>, ...\<close>

definition fullHistory :: "string list" where
  "fullHistory = map (\<lambda>n. replicate n CHR ''a'') [1..<33]"

definition fullState :: "unit state" where
  "fullState = (blank ())\<lparr>listObjs := (\<lambda>_. [])(0 := fullHistory)\<rparr>"

text \<open>
  The widget attached to the tab \<open>A\<close>, whose editor is the object 0 and holds the given
  text with the cursor in the given column; a second tab \<open>B\<close> has the editor 1.  The
  find field holds \<open>q\<close>.
\<close>

definition attached :: "string \<Rightarrow> int \<Rightarrow> string \<Rightarrow> doc state" where
  "attached s col q =
     (blank ((newDoc s)\<lparr>docCursor := (0, col)\<rparr>))
       \<lparr>isTextEditor := True, editor := Some 0, editorUUID := ''A'', findText := q,
        widgetByUUID := [''A'' \<mapsto> 0, ''B'' \<mapsto> 1]\<rparr>"

text \<open>The text that the editor object \<open>r\<close> holds.\<close>

definition textOf :: "ref \<Rightarrow> doc state \<Rightarrow> string" where
  "textOf r w = docText (editors w r)"

text \<open>The attached widget with a record for the tab \<open>A\<close>.\<close>

definition searched :: "string \<Rightarrow> int \<Rightarrow> string \<Rightarrow> SearchAttr \<Rightarrow> doc state" where
  "searched s col q a = (attached s col q)\<lparr>searchSupport := [(''A'', a)]\<rparr>"

definition recA :: SearchAttr where
  "recA = \<lparr>line = 0, pos = 0, firstLine = 0, match = (0, 1, 1)\<rparr>"

definition recB :: SearchAttr where
  "recB = \<lparr>line = 0, pos = 2, firstLine = 0, match = (0, 4, 1)\<rparr>"

text \<open>A widget that has searched in both tabs.\<close>

definition bothSearched :: "doc state" where
  "bothSearched =
     (attached ''abcabc'' 0 ''b'')\<lparr>searchSupport := [(''A'', recA), (''B'', recB)]\<rparr>"

text \<open>The definitions that the runs on concrete states unfold.\<close>

lemmas run_defs =
  attached_def searched_def recA_def recB_def blank_def newDoc_def docOps_def
  performSearch_def initialiseSearchAttributes_def selectFromEnd_def
  advanceMatchIndicator_def advanceTo_def nothingMatched_def searchFrom_def startPoint_def
  findNextPrev_def updateReplaceHistory_def addToHistory_def maxHistory_def
  emit_def invoke_def callMatch_def callBool_def callTargets_def
  hasEditor_def get_def add_def delete_def modify_def newSearchAttr_def noMatch_def
  firstScan_def secondScan_def wrapNotice_def pick_def highlightFrom_def
  firstFrom_def occurrences_def locate_def Let_def upt_rec

section \<open>Properties\<close>

subsection \<open>The dictionary of search attributes\<close>

lemma hasEditor_get: "hasEditor u s \<Longrightarrow> \<exists>a. get u s = Inr a"
  by (auto simp: hasEditor_def get_def)

lemma get_hasEditor: "get u s = Inr a \<Longrightarrow> hasEditor u s"
  by (auto simp: hasEditor_def get_def split: option.splits)

lemma get_add_same: "get u (add u a s) = Inr a"
  by (simp add: get_def add_def update_conv')

lemma get_add_other: "k \<noteq> u \<Longrightarrow> get k (add u a s) = get k s"
  by (simp add: get_def add_def update_conv')

lemma hasEditor_add: "hasEditor k (add u a s) = (k = u \<or> hasEditor k s)"
  by (simp add: hasEditor_def add_def update_conv')

lemma get_modify_same: "get u s = Inr a \<Longrightarrow> get u (modify u f s) = Inr (f a)"
  by (auto simp: get_def modify_def map_of_map_entry split: option.splits)

lemma get_modify_other: "k \<noteq> u \<Longrightarrow> get k (modify u f s) = get k s"
  by (auto simp: get_def modify_def map_of_map_entry split: option.splits)

subsection \<open>History\<close>

text \<open>
  What \<^verbatim>\<open>_addToHistory\<close> leaves in the caller's list: the text is put in front, an
  earlier entry of it is removed, and nothing is ever cut off.
\<close>

lemma addToHistory_caller_list:
  "listObjs (snd (addToHistory combo history text w)) history =
     (if text \<in> set (listObjs w history)
      then (if hd (listObjs w history) \<noteq> text
            then text # remove1 text (listObjs w history)
            else listObjs w history)
      else text # listObjs w history)"
  by (simp add: addToHistory_def emit_def Let_def split: prod.splits)

lemma addToHistory_front:
  "hd (listObjs (snd (addToHistory combo history text w)) history) = text"
  by (auto simp: addToHistory_caller_list)

lemma count_list_remove1:
  "count_list (remove1 t xs) y =
     (if t = y \<and> t \<in> set xs then count_list xs y - 1 else count_list xs y)"
  by (induction xs) auto

lemma addToHistory_no_second_entry:
  assumes "text \<in> set (listObjs w history)"
  shows "count_list (listObjs (snd (addToHistory combo history text w)) history) x =
         count_list (listObjs w history) x"
proof -
  have "0 < count_list (listObjs w history) text"
    using assms count_list_0_iff [of "listObjs w history" "text"] by auto
  with assms show ?thesis
    by (auto simp: addToHistory_caller_list count_list_remove1)
qed

lemma addToHistory_twice_same_list:
  "listObjs (snd (addToHistory combo history text (snd (addToHistory combo history text w))))
            history =
   listObjs (snd (addToHistory combo history text w)) history"
  by (simp add: addToHistory_caller_list)

lemma addToHistory_shown:
  "ComboAddItems combo (take maxHistory (listObjs (snd (addToHistory combo history text w)) history))
     = last (events (snd (addToHistory combo history text w)))"
  by (simp add: addToHistory_def emit_def Let_def split: prod.splits)

text \<open>
  While the caller's list holds at most 32 entries after the first call, the second call
  with the same string reports no change.
\<close>

lemma addToHistory_twice_no_change:
  assumes "length (listObjs (snd (addToHistory combo history text w)) history) \<le> maxHistory"
  shows "\<not> fst (addToHistory combo history text (snd (addToHistory combo history text w)))"
proof -
  let ?w1 = "snd (addToHistory combo history text w)"
  have "hd (listObjs ?w1 history) = text" "text \<in> set (listObjs ?w1 history)"
    by (auto simp: addToHistory_caller_list)
  with assms show ?thesis
    by (simp add: addToHistory_def [of combo history "text" ?w1] Let_def split: prod.splits)
qed

text \<open>
  C2.  The claim: after \<^verbatim>\<open>_addToHistory\<close> the caller's history list never holds more
  than 32 entries, and a 33rd distinct string drops the oldest entry.  The code cuts
  only the list bound to its local name.  Run on a history of 32 distinct strings and a
  new string, it reports a change, shows 32 items in the combo box and leaves 33
  entries in the caller's list, the oldest still last; \<^verbatim>\<open>__updateReplaceHistory\<close> then
  hands all 33 to the project.
\<close>

theorem addToHistory_caller_list_exceeds_capacity:
  "fst (addToHistory FindtextCombo 0 ''new'' fullState) \<and>
   length (listObjs (snd (addToHistory FindtextCombo 0 ''new'' fullState)) 0) = 33 \<and>
   last (listObjs (snd (addToHistory FindtextCombo 0 ''new'' fullState)) 0) = last fullHistory \<and>
   events (snd (addToHistory FindtextCombo 0 ''new'' fullState)) =
     [ComboClear FindtextCombo, ComboAddItems FindtextCombo (''new'' # butlast fullHistory)] \<and>
   last (events (updateReplaceHistory ''new'' ''r'' fullState)) =
     SetReplaceHistory (''new'' # fullHistory) [''r'']"
  by (simp add: updateReplaceHistory_def addToHistory_def fullState_def blank_def
                fullHistory_def maxHistory_def emit_def upt_rec Let_def)

text \<open>
  C9.  The claim: adding a present string moves it to the front without a second entry,
  adding the same string twice in a row reports no change the second time, and the
  added string is always the front element.  The front element, the single entry and
  the unchanged list are the lemmas above, and so is the report while the caller's list
  stays within 32 entries.  Beyond that the report fails: with 32 distinct entries and
  a new string the caller's list keeps 33 entries after the first call, and the second
  call, which changes nothing, reports a change.
\<close>

theorem addToHistory_twice_reports_change:
  "fst (addToHistory FindtextCombo 0 ''new''
          (snd (addToHistory FindtextCombo 0 ''new'' fullState))) \<and>
   listObjs (snd (addToHistory FindtextCombo 0 ''new''
                    (snd (addToHistory FindtextCombo 0 ''new'' fullState)))) 0 =
   listObjs (snd (addToHistory FindtextCombo 0 ''new'' fullState)) 0"
  by (simp add: addToHistory_def fullState_def blank_def fullHistory_def maxHistory_def
                emit_def upt_rec)

subsection \<open>Advancing the match indicator\<close>

text \<open>
  C10.  \<^verbatim>\<open>_advanceMatchIndicator\<close> returns the widget, its dictionary, the editors and
  the log unchanged when the dictionary has no record for the uuid or the editors
  manager has no widget for it, and it never raises: the lookup comes after the test
  \<^verbatim>\<open>hasEditor\<close>.
\<close>

theorem advanceMatchIndicator_guard:
  "(\<not> hasEditor u (searchSupport w) \<or> widgetByUUID w u = None \<longrightarrow>
      advanceMatchIndicator ops u newLine newPos newLength w = Inr w) \<and>
   (\<exists>w'. advanceMatchIndicator ops u newLine newPos newLength w = Inr w')"
  by (auto simp: advanceMatchIndicator_def Let_def hasEditor_def get_def
           split: option.splits prod.splits sum.splits)

theorem advanceMatchIndicator_guard_witness:
  "\<not> hasEditor ''A'' (searchSupport (blank (newDoc ''text''))) \<and>
   advanceMatchIndicator docOps ''A'' 0 1 2 (blank (newDoc ''text'')) = Inr (blank (newDoc ''text'')) \<and>
   hasEditor ''A'' (searchSupport ((blank (newDoc ''text''))\<lparr>searchSupport := [(''A'', newSearchAttr)]\<rparr>)) \<and>
   widgetByUUID ((blank (newDoc ''text''))\<lparr>searchSupport := [(''A'', newSearchAttr)]\<rparr>) ''A'' = None \<and>
   advanceMatchIndicator docOps ''A'' 0 1 2
       ((blank (newDoc ''text''))\<lparr>searchSupport := [(''A'', newSearchAttr)]\<rparr>) =
     Inr ((blank (newDoc ''text''))\<lparr>searchSupport := [(''A'', newSearchAttr)]\<rparr>)"
  using advanceMatchIndicator_guard
          [of "''A''" "blank (newDoc ''text'')" docOps 0 1 2]
        advanceMatchIndicator_guard
          [of "''A''" "(blank (newDoc ''text''))\<lparr>searchSupport := [(''A'', newSearchAttr)]\<rparr>"
              docOps 0 1 2]
  by (simp add: blank_def hasEditor_def)

subsection \<open>Isolation\<close>

lemma clearOther_frame:
  "searchSupport (clearOther ops u key w) = searchSupport w"
  "widgetByUUID (clearOther ops u key w) = widgetByUUID w"
  "events (clearOther ops u key w) =
     events w @ (if key = u then []
                 else case widgetByUUID w key of
                        None \<Rightarrow> []
                      | Some ed \<Rightarrow> [Editor ed ClearSearchIndicators])"
  by (auto simp: clearOther_def invoke_def split: option.splits)

text \<open>The calls that the loop of \<^verbatim>\<open>_resetHighlightOtherEditors\<close> makes for a list of keys.\<close>

lemma fold_clearOther:
  "searchSupport (fold (clearOther ops u) ks w) = searchSupport w \<and>
   widgetByUUID (fold (clearOther ops u) ks w) = widgetByUUID w \<and>
   events (fold (clearOther ops u) ks w) =
     events w @
     concat (map (\<lambda>key. if key = u then []
                         else case widgetByUUID w key of
                                None \<Rightarrow> []
                              | Some ed \<Rightarrow> [Editor ed ClearSearchIndicators]) ks)"
  by (induction ks arbitrary: w) (simp_all add: clearOther_frame cong: if_cong)

lemma resetHighlightOtherEditors_eq:
  "resetHighlightOtherEditors ops u w =
     Inr ((fold (clearOther ops u) (map fst (searchSupport w)) w)
            \<lparr>searchSupport := (case map_of (searchSupport w) u of
                                 None \<Rightarrow> []
                               | Some a \<Rightarrow> [(u, a)])\<rparr>)"
  by (cases "map_of (searchSupport w) u")
     (simp_all add: resetHighlightOtherEditors_def hasEditor_def get_def Let_def add_def)

text \<open>
  C4.  The claim: after a search in document \<open>A\<close>, activating document \<open>B\<close> and searching
  there leaves the record of \<open>A\<close> neither altered nor cleared, clears the highlight of
  \<open>A\<close> and keeps the record of \<open>B\<close>.  The code forgets the record of \<open>A\<close>: typing in the
  find field while \<open>B\<close> is current runs \<^verbatim>\<open>_resetHighlightOtherEditors\<close>, which empties the
  dictionary and stores the record of \<open>B\<close> alone.
\<close>

theorem isolation_forgets_other_document:
  "map_sum id (get ''A'' \<circ> searchSupport)
     (performSearch docOps True (attached ''abcabc'' 0 ''b'')) = Inr (Inr recA) \<and>
   map_sum id (get ''A'' \<circ> searchSupport)
     (andThen (performSearch docOps True (attached ''abcabc'' 0 ''b''))
              (onEditTextChanged docOps \<circ> updateStatus (True, 1, ''B''))) = Inr (Inl KeyError) \<and>
   map_sum id (get ''B'' \<circ> searchSupport)
     (andThen (performSearch docOps True (attached ''abcabc'' 0 ''b''))
              (onEditTextChanged docOps \<circ> updateStatus (True, 1, ''B''))) =
     Inr (Inr \<lparr>line = 0, pos = 0, firstLine = 0, match = (0, 1, 1)\<rparr>)"
  by (simp add: run_defs andThen_def updateStatus_def onEditTextChanged_def
                resetHighlightOtherEditors_def clearOther_def)

text \<open>
  C4 as the code has it: \<^verbatim>\<open>_resetHighlightOtherEditors(uuid)\<close> never raises, keeps the
  record of \<open>uuid\<close> as it is (or keeps it absent), leaves no record for any other
  document, and calls \<^verbatim>\<open>clearSearchIndicators\<close> on the editor of every other document
  that had a record and whose widget the editors manager supplies, in the order of the
  dictionary.
\<close>

theorem resetHighlightOtherEditors_drops_other_records:
  "\<exists>w'. resetHighlightOtherEditors ops u w = Inr w' \<and>
     get u (searchSupport w') = get u (searchSupport w) \<and>
     (\<forall>k. k \<noteq> u \<longrightarrow> get k (searchSupport w') = Inl KeyError) \<and>
     (\<forall>k ed. k \<noteq> u \<and> hasEditor k (searchSupport w) \<and> widgetByUUID w k = Some ed \<longrightarrow>
        Editor ed ClearSearchIndicators \<in> set (events w')) \<and>
     events w' =
       events w @
       concat (map (\<lambda>key. if key = u then []
                           else case widgetByUUID w key of
                                  None \<Rightarrow> []
                                | Some ed \<Rightarrow> [Editor ed ClearSearchIndicators])
                   (map fst (searchSupport w)))"
proof -
  have "Editor ed ClearSearchIndicators \<in>
          set (concat (map (\<lambda>key. if key = u then []
                           else case widgetByUUID w key of
                                  None \<Rightarrow> []
                                | Some ed \<Rightarrow> [Editor ed ClearSearchIndicators])
                   (map fst (searchSupport w))))"
    if "k \<noteq> u" "hasEditor k (searchSupport w)" "widgetByUUID w k = Some ed" for k ed
  proof -
    from that(2) obtain a where "(k, a) \<in> set (searchSupport w)"
      by (auto simp: hasEditor_def dest: map_of_SomeD)
    with that(1,3) show ?thesis
      by (auto intro!: bexI [of _ "(k, a)"])
  qed
  then show ?thesis
    by (auto simp: resetHighlightOtherEditors_eq fold_clearOther get_def split: option.splits)
qed

theorem resetHighlightOtherEditors_drops_other_records_witness:
  "\<exists>w'. resetHighlightOtherEditors docOps ''B'' bothSearched = Inr w' \<and>
     get ''A'' (searchSupport bothSearched) = Inr recA \<and>
     widgetByUUID bothSearched ''A'' = Some 0 \<and>
     get ''B'' (searchSupport w') = Inr recB \<and>
     get ''A'' (searchSupport w') = Inl KeyError \<and>
     Editor 0 ClearSearchIndicators \<in> set (events w')"
proof -
  obtain w' where w': "resetHighlightOtherEditors docOps ''B'' bothSearched = Inr w'"
     "get ''B'' (searchSupport w') = get ''B'' (searchSupport bothSearched)"
     "\<forall>k. k \<noteq> ''B'' \<longrightarrow> get k (searchSupport w') = Inl KeyError"
     "\<forall>k ed. k \<noteq> ''B'' \<and> hasEditor k (searchSupport bothSearched) \<and>
              widgetByUUID bothSearched k = Some ed \<longrightarrow>
        Editor ed ClearSearchIndicators \<in> set (events w')"
    using resetHighlightOtherEditors_drops_other_records [of docOps "''B''" bothSearched]
    by blast
  have a: "get ''A'' (searchSupport bothSearched) = Inr recA"
          "get ''B'' (searchSupport bothSearched) = Inr recB"
          "widgetByUUID bothSearched ''A'' = Some 0"
          "hasEditor ''A'' (searchSupport bothSearched)"
    by (simp_all add: bothSearched_def attached_def blank_def get_def hasEditor_def)
  from w'(3) have "get ''A'' (searchSupport w') = Inl KeyError" by simp
  moreover from w'(4) [rule_format, of "''A''" 0] a
  have "Editor 0 ClearSearchIndicators \<in> set (events w')" by simp
  ultimately show ?thesis using w'(1,2) a by simp
qed

subsection \<open>Incremental search\<close>

lemma initialise_present:
  "hasEditor u (searchSupport w) \<Longrightarrow> initialiseSearchAttributes ops u w = Inr w"
  by (simp add: initialiseSearchAttributes_def)

lemma performSearch_continuing_empty:
  assumes "isTextEditor w" "editor w = Some ed"
      and "get (editorUUID w) (searchSupport w) = Inr sa"
      and "findText w = []"
  shows "performSearch ops False w =
     Inr (w\<lparr>searchSupport := modify (editorUUID w) (\<lambda>a. a\<lparr>match := noMatch\<rparr>) (searchSupport w),
            editors := (editors w)(ed := effect ops (EnsureLineOnScreen (firstLine sa))
                          (effect ops (SetCursorPosition (line sa) (pos sa))
                            (effect ops (ClearAllIndicators MatchIndicator)
                              (effect ops (ClearAllIndicators SearchIndicator) (editors w ed))))),
            events := events w @
              [SetEnabled FindNextButton False, SetEnabled FindPrevButton False,
               Editor ed (ClearAllIndicators SearchIndicator),
               Editor ed (ClearAllIndicators MatchIndicator),
               Editor ed (SetCursorPosition (line sa) (pos sa)),
               Editor ed (EnsureLineOnScreen (firstLine sa)),
               IncSearchDone False]\<rparr>)"
  using assms get_hasEditor [OF assms(3)]
  by (simp add: performSearch_def initialise_present emit_def invoke_def Let_def)

lemma performSearch_continuing_no_match:
  assumes "isTextEditor w" "editor w = Some ed"
      and "get (editorUUID w) (searchSupport w) = Inr sa"
      and "findText w \<noteq> []"
      and "c = HighlightMatch (findText w) (line sa) (pos sa)
                 (regexpChecked w) (caseChecked w) (wordChecked w) None"
      and "answerMatch ops c (editors w ed) = noMatch"
  shows "performSearch ops False w =
     Inr (w\<lparr>searchSupport := modify (editorUUID w) (\<lambda>a. a\<lparr>match := noMatch\<rparr>) (searchSupport w),
            editors := (editors w)(ed := effect ops (EnsureLineOnScreen (firstLine sa))
                          (effect ops (SetCursorPosition (line sa) (pos sa))
                            (effect ops c (editors w ed)))),
            events := events w @
              [SetEnabled FindNextButton True, SetEnabled FindPrevButton True,
               Editor ed c,
               Editor ed (SetCursorPosition (line sa) (pos sa)),
               Editor ed (EnsureLineOnScreen (firstLine sa)),
               IncSearchDone False]\<rparr>)"
  using assms get_hasEditor [OF assms(3)]
  by (simp add: performSearch_def initialise_present emit_def invoke_def callMatch_def Let_def)

text \<open>A continuing search for a text starts at the recorded anchor, whatever it finds.\<close>

lemma performSearch_continuing_starts_at_anchor:
  assumes "isTextEditor w" "editor w = Some ed"
      and "get (editorUUID w) (searchSupport w) = Inr sa"
      and "findText w \<noteq> []"
  shows "\<exists>w' evs. performSearch ops False w = Inr w' \<and>
           events w' = events w @
              [SetEnabled FindNextButton True, SetEnabled FindPrevButton True,
               Editor ed (HighlightMatch (findText w) (line sa) (pos sa)
                            (regexpChecked w) (caseChecked w) (wordChecked w) None)] @ evs"
  using assms get_hasEditor [OF assms(3)]
  by (simp add: performSearch_def initialise_present emit_def invoke_def callMatch_def
                selectFromEnd_def Let_def split: prod.splits)

text \<open>
  C7.  A continuing incremental search (\<^verbatim>\<open>_performSearch(False)\<close> with the record of the
  current editor present) whose find text is empty, or for whose text the editor finds
  no match from the anchor, ends with setting the cursor to the recorded anchor,
  scrolling to the recorded first visible line and the signal \<^verbatim>\<open>incSearchDone(False)\<close>.
  The record then has no match and the anchor it had, so that the next search for any
  text \<open>t\<close> again asks the editor from that anchor.
\<close>

theorem performSearch_continuing_not_found:
  assumes "isTextEditor w" "editor w = Some ed"
      and "get (editorUUID w) (searchSupport w) = Inr sa"
      and "findText w = [] \<or>
           answerMatch ops (HighlightMatch (findText w) (line sa) (pos sa)
                              (regexpChecked w) (caseChecked w) (wordChecked w) None)
                       (editors w ed) = noMatch"
  shows "\<exists>w' evs.
           performSearch ops False w = Inr w' \<and>
           events w' = events w @ evs @
              [Editor ed (SetCursorPosition (line sa) (pos sa)),
               Editor ed (EnsureLineOnScreen (firstLine sa)),
               IncSearchDone False] \<and>
           get (editorUUID w) (searchSupport w') = Inr (sa\<lparr>match := noMatch\<rparr>) \<and>
           (\<forall>t. t \<noteq> [] \<longrightarrow>
              (\<exists>w'' evs'. performSearch ops False (w'\<lparr>findText := t\<rparr>) = Inr w'' \<and>
                 events w'' = events w' @
                   [SetEnabled FindNextButton True, SetEnabled FindPrevButton True,
                    Editor ed (HighlightMatch t (line sa) (pos sa)
                                 (regexpChecked w) (caseChecked w) (wordChecked w) None)] @ evs'))"
proof -
  let ?c = "HighlightMatch (findText w) (line sa) (pos sa)
              (regexpChecked w) (caseChecked w) (wordChecked w) None"
  have "\<exists>w' evs. performSearch ops False w = Inr w' \<and>
      events w' = events w @ evs @
              [Editor ed (SetCursorPosition (line sa) (pos sa)),
               Editor ed (EnsureLineOnScreen (firstLine sa)),
               IncSearchDone False] \<and>
      searchSupport w' = modify (editorUUID w) (\<lambda>a. a\<lparr>match := noMatch\<rparr>) (searchSupport w) \<and>
      isTextEditor w' \<and> editor w' = Some ed \<and> editorUUID w' = editorUUID w \<and>
      regexpChecked w' = regexpChecked w \<and> caseChecked w' = caseChecked w \<and>
      wordChecked w' = wordChecked w"
  proof (cases "findText w = []")
    case True
    show ?thesis
      unfolding performSearch_continuing_empty [OF assms(1-3) True]
      apply (rule exI)
      apply (rule exI [of _ "[SetEnabled FindNextButton False, SetEnabled FindPrevButton False,
               Editor ed (ClearAllIndicators SearchIndicator),
               Editor ed (ClearAllIndicators MatchIndicator)]"])
      apply (intro conjI)
              apply (rule refl)
             apply (simp_all add: assms)
      done
  next
    case False
    with assms(4) have nm: "answerMatch ops ?c (editors w ed) = noMatch" by simp
    show ?thesis
      unfolding performSearch_continuing_no_match [OF assms(1-3) False refl nm]
      apply (rule exI)
      apply (rule exI [of _ "[SetEnabled FindNextButton True, SetEnabled FindPrevButton True,
               Editor ed ?c]"])
      apply (intro conjI)
              apply (rule refl)
             apply (simp_all add: assms)
      done
  qed
  then obtain w' evs where w': "performSearch ops False w = Inr w'"
      "events w' = events w @ evs @
              [Editor ed (SetCursorPosition (line sa) (pos sa)),
               Editor ed (EnsureLineOnScreen (firstLine sa)),
               IncSearchDone False]"
      "searchSupport w' = modify (editorUUID w) (\<lambda>a. a\<lparr>match := noMatch\<rparr>) (searchSupport w)"
      "isTextEditor w'" "editor w' = Some ed" "editorUUID w' = editorUUID w"
      "regexpChecked w' = regexpChecked w" "caseChecked w' = caseChecked w"
      "wordChecked w' = wordChecked w"
    by blast
  have g: "get (editorUUID w) (searchSupport w') = Inr (sa\<lparr>match := noMatch\<rparr>)"
    by (simp add: w'(3) get_modify_same [OF assms(3)])
  have later: "\<exists>w'' evs'. performSearch ops False (w'\<lparr>findText := t\<rparr>) = Inr w'' \<and>
                 events w'' = events w' @
                   [SetEnabled FindNextButton True, SetEnabled FindPrevButton True,
                    Editor ed (HighlightMatch t (line sa) (pos sa)
                                 (regexpChecked w) (caseChecked w) (wordChecked w) None)] @ evs'"
    if "t \<noteq> []" for t
    using performSearch_continuing_starts_at_anchor
            [of "w'\<lparr>findText := t\<rparr>" ed "sa\<lparr>match := noMatch\<rparr>" ops] that g w'
    by simp
  from w'(1,2) g later show ?thesis by blast
qed

theorem performSearch_continuing_not_found_witness:
  "isTextEditor (searched ''abcabc'' 4 ''zz'' recB) \<and>
   editor (searched ''abcabc'' 4 ''zz'' recB) = Some 0 \<and>
   get ''A'' (searchSupport (searched ''abcabc'' 4 ''zz'' recB)) = Inr recB \<and>
   answerMatch docOps (HighlightMatch ''zz'' 0 2 False False False None)
               (editors (searched ''abcabc'' 4 ''zz'' recB) 0) = noMatch \<and>
   (\<exists>w' evs.
      performSearch docOps False (searched ''abcabc'' 4 ''zz'' recB) = Inr w' \<and>
      events w' = evs @ [Editor 0 (SetCursorPosition 0 2), Editor 0 (EnsureLineOnScreen 0),
                         IncSearchDone False] \<and>
      get ''A'' (searchSupport w') = Inr \<lparr>line = 0, pos = 2, firstLine = 0, match = noMatch\<rparr>)"
proof -
  let ?w = "searched ''abcabc'' 4 ''zz'' recB"
  have h: "isTextEditor ?w" "editor ?w = Some 0"
      "get (editorUUID ?w) (searchSupport ?w) = Inr recB"
      "findText ?w = [] \<or>
       answerMatch docOps (HighlightMatch (findText ?w) (line recB) (pos recB)
                             (regexpChecked ?w) (caseChecked ?w) (wordChecked ?w) None)
                   (editors ?w 0) = noMatch"
    by (simp_all add: run_defs)
  have v: "editorUUID ?w = ''A''" "events ?w = []" "line recB = 0" "pos recB = 2"
      "firstLine recB = 0" "findText ?w = ''zz''" "regexpChecked ?w = False"
      "caseChecked ?w = False" "wordChecked ?w = False"
      "recB\<lparr>match := noMatch\<rparr> = \<lparr>line = 0, pos = 2, firstLine = 0, match = noMatch\<rparr>"
    by (simp_all add: run_defs)
  from performSearch_continuing_not_found [OF h] h v show ?thesis
    by auto
qed

subsection \<open>Find next and find previous\<close>

lemma advanceMatchIndicator_total:
  "\<exists>w'. advanceMatchIndicator ops u nl np nlen w = Inr w' \<and>
        editor w' = editor w \<and> editorUUID w' = editorUUID w \<and>
        (\<forall>k. hasEditor k (searchSupport w') = hasEditor k (searchSupport w)) \<and>
        (\<exists>evs. events w' = events w @ evs)"
proof (cases "hasEditor u (searchSupport w)")
  case False
  then show ?thesis by (simp add: advanceMatchIndicator_def)
next
  case True
  then obtain sa where sa: "get u (searchSupport w) = Inr sa"
    using hasEditor_get by blast
  show ?thesis
  proof (cases "widgetByUUID w u")
    case None
    with True sa show ?thesis
      by (simp add: advanceMatchIndicator_def split: prod.splits)
  next
    case (Some ed)
    with True sa show ?thesis
      by (auto simp: advanceMatchIndicator_def Let_def invoke_def hasEditor_add
               split: prod.splits)
  qed
qed

lemma advanceMatchIndicator_present:
  assumes "get u (searchSupport w) = Inr sa" "widgetByUUID w u = Some ed"
  shows "\<exists>w' evs eLine ePos.
           advanceMatchIndicator ops u nl np nlen w = Inr w' \<and>
           searchSupport w' = add u (sa\<lparr>match := (nl, np, nlen)\<rparr>) (searchSupport w) \<and>
           events w' = events w @ evs @
              [Editor ed (SetSelection eLine ePos nl np), Editor ed (EnsureLineOnScreen nl)]"
  using assms get_hasEditor [OF assms(1)]
  by (simp add: advanceMatchIndicator_def Let_def invoke_def split: prod.splits)

lemma advanceTo_total:
  "\<exists>w'. advanceTo ops t w = Inr (True, w') \<and>
        editor w' = editor w \<and> editorUUID w' = editorUUID w \<and>
        (\<forall>k. hasEditor k (searchSupport w') = hasEditor k (searchSupport w)) \<and>
        (\<exists>evs. events w' = events w @ evs)"
proof -
  obtain t0 t1 t2 where t: "t = (t0, t1, t2)" by (cases t)
  show ?thesis
    using advanceMatchIndicator_total [of ops "editorUUID w" t0 t1 t2 w]
    by (auto simp: advanceTo_def t)
qed

lemma advanceTo_present:
  assumes "get (editorUUID w) (searchSupport w) = Inr sa"
          "widgetByUUID w (editorUUID w) = Some ed"
  shows "\<exists>w' evs eLine ePos.
           advanceTo ops t w = Inr (True, w') \<and>
           searchSupport w' = add (editorUUID w) (sa\<lparr>match := t\<rparr>) (searchSupport w) \<and>
           events w' = events w @ evs @
              [Editor ed (SetSelection eLine ePos (fst t) (fst (snd t))),
               Editor ed (EnsureLineOnScreen (fst t))]"
proof -
  obtain t0 t1 t2 where t: "t = (t0, t1, t2)" by (cases t)
  show ?thesis
    using advanceMatchIndicator_present [OF assms, of ops t0 t1 t2]
    by (auto simp: advanceTo_def t)
qed

text \<open>\<^verbatim>\<open>__searchFrom\<close> in either direction, in the names given above.\<close>

lemma searchFrom_unfold:
  assumes "editor w = Some ed"
  shows "searchFrom ops sl sp clr w =
     (let w1 = invoke ops ed (highlightFrom w sl sp) w;
          ts1 = answerTargets ops (firstScan w sl sp) (editors w1 ed);
          w2 = invoke ops ed (firstScan w sl sp) w1
      in if ts1 = [] then
           let w3 = emit (wrapNotice w) w2;
               ts2 = answerTargets ops (secondScan w sl sp) (editors w3 ed);
               w4 = invoke ops ed (secondScan w sl sp) w3
           in if ts2 = [] then nothingMatched w4 else advanceTo ops (pick w ts2) w4
         else advanceTo ops (pick w ts1) (if clr then emit (ClearStatusBarMessage 0) w2 else w2))"
  using assms
  by (simp add: searchFrom_def callTargets_def Let_def firstScan_def secondScan_def
                wrapNotice_def pick_def highlightFrom_def)

lemma searchFrom_total:
  assumes "editor w = Some ed" "hasEditor (editorUUID w) (searchSupport w)"
  shows "\<exists>b w' evs. searchFrom ops sl sp clr w = Inr (b, w') \<and>
           events w' = events w @
             [Editor ed (highlightFrom w sl sp), Editor ed (firstScan w sl sp)] @ evs \<and>
           editor w' = editor w \<and> editorUUID w' = editorUUID w \<and>
           hasEditor (editorUUID w) (searchSupport w')"
proof -
  let ?goal = "\<lambda>r. \<exists>b w' evs. r = Inr (b, w') \<and>
                  events w' = events w @
                    [Editor ed (highlightFrom w sl sp), Editor ed (firstScan w sl sp)] @ evs \<and>
                  editor w' = editor w \<and>
                  editorUUID w' = editorUUID w \<and> hasEditor (editorUUID w) (searchSupport w')"
  obtain sa where sa: "get (editorUUID w) (searchSupport w) = Inr sa"
    using assms(2) hasEditor_get by blast
  have adv: "?goal (advanceTo ops t v)"
    if "editor v = editor w" "editorUUID v = editorUUID w" "searchSupport v = searchSupport w"
       "events v = events w @
          [Editor ed (highlightFrom w sl sp), Editor ed (firstScan w sl sp)] @ pre"
    for t v pre
    using advanceTo_total [of ops t v] that assms(2) by auto
  have nm: "?goal (nothingMatched v)"
    if "editor v = editor w" "editorUUID v = editorUUID w" "searchSupport v = searchSupport w"
       "events v = events w @
          [Editor ed (highlightFrom w sl sp), Editor ed (firstScan w sl sp)] @ pre"
    for v pre
    using that sa by (simp add: nothingMatched_def hasEditor_add ex_bool_eq)
  define w1 where "w1 = invoke ops ed (highlightFrom w sl sp) w"
  define ts1 where "ts1 = answerTargets ops (firstScan w sl sp) (editors w1 ed)"
  define w2 where "w2 = invoke ops ed (firstScan w sl sp) w1"
  define w2' where "w2' = (if clr then emit (ClearStatusBarMessage 0) w2 else w2)"
  define w3 where "w3 = emit (wrapNotice w) w2"
  define ts2 where "ts2 = answerTargets ops (secondScan w sl sp) (editors w3 ed)"
  define w4 where "w4 = invoke ops ed (secondScan w sl sp) w3"
  have sf: "searchFrom ops sl sp clr w =
              (if ts1 = [] then
                 if ts2 = [] then nothingMatched w4 else advanceTo ops (pick w ts2) w4
               else advanceTo ops (pick w ts1) w2')"
    unfolding searchFrom_unfold [OF assms(1)] Let_def w1_def ts1_def w2_def w2'_def w3_def
              ts2_def w4_def
    by simp
  have p4: "editor w4 = editor w" "editorUUID w4 = editorUUID w"
      "searchSupport w4 = searchSupport w"
      "events w4 = events w @
          [Editor ed (highlightFrom w sl sp), Editor ed (firstScan w sl sp)] @
          [wrapNotice w, Editor ed (secondScan w sl sp)]"
    by (simp_all add: w4_def w3_def w2_def w1_def invoke_def emit_def)
  have p2: "editor w2' = editor w" "editorUUID w2' = editorUUID w"
      "searchSupport w2' = searchSupport w"
      "events w2' = events w @
          [Editor ed (highlightFrom w sl sp), Editor ed (firstScan w sl sp)] @
          (if clr then [ClearStatusBarMessage 0] else [])"
    by (simp_all add: w2'_def w2_def w1_def invoke_def emit_def)
  show ?thesis
    unfolding sf using adv [OF p4] adv [OF p2] nm [OF p4] by simp
qed

lemma startPoint_on_match:
  assumes "editor w = Some ed" "\<not> findBackward w"
      and "get (editorUUID w) (searchSupport w) = Inr sa"
      and "match sa = (getLine ops (editors w ed), getPos ops (editors w ed), len)"
  shows "startPoint ops w =
           Inr ((getLine ops (editors w ed),
                 getPos ops (editors w ed) +
                   int (length (stringAt ops (editors w ed)
                          (positionFromLineIndex ops (editors w ed)
                             (getLine ops (editors w ed)) (getPos ops (editors w ed))) len))), w)"
  using assms get_hasEditor [OF assms(3)]
  by (simp add: startPoint_def Let_def)

lemma startPoint_moved:
  assumes "editor w = Some ed"
      and "get (editorUUID w) (searchSupport w) = Inr sa"
      and "fst (match sa) \<noteq> getLine ops (editors w ed) \<or>
           fst (snd (match sa)) \<noteq> getPos ops (editors w ed)"
  shows "startPoint ops w =
           Inr ((getLine ops (editors w ed), getPos ops (editors w ed)),
                w\<lparr>searchSupport :=
                    add (editorUUID w)
                      \<lparr>line = getLine ops (editors w ed), pos = getPos ops (editors w ed),
                       firstLine = firstVisibleLine ops (editors w ed), match = noMatch\<rparr>
                      (searchSupport w)\<rparr>)"
  using assms get_hasEditor [OF assms(2)]
  by (cases sa) (auto simp: startPoint_def Let_def split: prod.splits)

lemma startPoint_fresh:
  assumes "editor w = Some ed"
      and "\<not> hasEditor (editorUUID w) (searchSupport w)"
  shows "startPoint ops w =
           Inr ((getLine ops (editors w ed), getPos ops (editors w ed)),
                w\<lparr>searchSupport :=
                    add (editorUUID w)
                      \<lparr>line = getLine ops (editors w ed), pos = getPos ops (editors w ed),
                       firstLine = firstVisibleLine ops (editors w ed), match = noMatch\<rparr>
                      (searchSupport w)\<rparr>)"
  using assms
  by (simp add: startPoint_def Let_def newSearchAttr_def)

text \<open>The start point is always found, and finding it changes the dictionary only.\<close>

lemma startPoint_total:
  assumes "editor w = Some ed"
  shows "\<exists>sl sp ss. startPoint ops w = Inr ((sl, sp), w\<lparr>searchSupport := ss\<rparr>) \<and>
           hasEditor (editorUUID w) ss"
proof (cases "hasEditor (editorUUID w) (searchSupport w)")
  case True
  then obtain sa where sa: "get (editorUUID w) (searchSupport w) = Inr sa"
    using hasEditor_get by blast
  show ?thesis
  proof (cases "fst (match sa) \<noteq> getLine ops (editors w ed) \<or>
                fst (snd (match sa)) \<noteq> getPos ops (editors w ed)")
    case True
    show ?thesis
      unfolding startPoint_moved [OF assms sa True]
      by (intro exI conjI, rule refl) (simp add: hasEditor_add)
  next
    case False
    have "\<exists>sl sp. startPoint ops w = Inr ((sl, sp), w)"
      using assms sa False \<open>hasEditor (editorUUID w) (searchSupport w)\<close>
      by (cases sa) (auto simp: startPoint_def Let_def split: prod.splits)
    then obtain sl sp where "startPoint ops w = Inr ((sl, sp), w\<lparr>searchSupport := searchSupport w\<rparr>)"
      by auto
    with \<open>hasEditor (editorUUID w) (searchSupport w)\<close> show ?thesis by blast
  qed
next
  case False
  show ?thesis
    unfolding startPoint_fresh [OF assms False]
    by (intro exI conjI, rule refl) (simp add: hasEditor_add)
qed

text \<open>
  \<^verbatim>\<open>__findNextPrev\<close> after the start point: the log is the log of \<^verbatim>\<open>__searchFrom\<close>, the
  answer is its answer.
\<close>

lemma findNextPrev_after_startPoint:
  assumes "isTextEditor w" "editor w = Some ed"
      and "startPoint ops w = Inr ((sl, sp), w1)"
      and "searchFrom ops sl sp clr w1 = Inr (b, w2)"
      and "editor w2 = Some ed" "hasEditor (editorUUID w2) (searchSupport w2)"
  shows "\<exists>w'. findNextPrev ops clr w = Inr (b, w') \<and> events w' = events w2 \<and>
           (\<forall>sa. get (editorUUID w2) (searchSupport w2) = Inr sa \<longrightarrow>
              (\<exists>sa'. get (editorUUID w2) (searchSupport w') = Inr sa' \<and> match sa' = match sa))"
proof -
  obtain sa where sa: "get (editorUUID w2) (searchSupport w2) = Inr sa"
    using assms(6) hasEditor_get by blast
  show ?thesis
    using assms sa
    by (cases b) (simp_all add: findNextPrev_def Let_def get_add_same)
qed

lemma findNextPrev_total:
  assumes "editor w = Some ed"
  shows "\<exists>b w'. findNextPrev ops clr w = Inr (b, w')"
proof (cases "isTextEditor w")
  case False
  then show ?thesis by (simp add: findNextPrev_def ex_bool_eq)
next
  case True
  obtain sl sp ss where sp: "startPoint ops w = Inr ((sl, sp), w\<lparr>searchSupport := ss\<rparr>)"
      "hasEditor (editorUUID w) ss"
    using startPoint_total [OF assms, of ops] by blast
  obtain b w2 where sf: "searchFrom ops sl sp clr (w\<lparr>searchSupport := ss\<rparr>) = Inr (b, w2)"
      "editor w2 = Some ed" "hasEditor (editorUUID w2) (searchSupport w2)"
    using searchFrom_total [of "w\<lparr>searchSupport := ss\<rparr>" ed ops sl sp clr] assms sp(2)
    by auto
  show ?thesis
    using findNextPrev_after_startPoint [OF True assms sp(1) sf] by blast
qed

lemma findNextPrev_no_KeyError: "findNextPrev ops clr w \<noteq> Inl KeyError"
proof (cases "editor w")
  case (Some ed)
  then show ?thesis using findNextPrev_total [of w ed ops clr] by auto
next
  case None
  then show ?thesis
    by (simp add: findNextPrev_def startPoint_def)
qed

text \<open>
  When the first scan finds nothing, \<^verbatim>\<open>__searchFrom\<close> shows the notice and scans the
  complementary range; when that finds nothing either, it resets the match of the
  record and answers \<^verbatim>\<open>False\<close>.
\<close>

lemma searchFrom_wraps:
  assumes "editor w = Some ed" "get (editorUUID w) (searchSupport w) = Inr sa"
      and "e1 = effect ops (highlightFrom w sl sp) (editors w ed)"
      and "answerTargets ops (firstScan w sl sp) e1 = []"
  shows "\<exists>b w' evs. searchFrom ops sl sp clr w = Inr (b, w') \<and>
           events w' = events w @
             [Editor ed (highlightFrom w sl sp), Editor ed (firstScan w sl sp),
              wrapNotice w, Editor ed (secondScan w sl sp)] @ evs \<and>
           editor w' = editor w \<and> editorUUID w' = editorUUID w \<and>
           hasEditor (editorUUID w) (searchSupport w') \<and>
           (answerTargets ops (secondScan w sl sp) (effect ops (firstScan w sl sp) e1) = [] \<longrightarrow>
              \<not> b \<and> evs = [] \<and>
              get (editorUUID w) (searchSupport w') = Inr (sa\<lparr>match := noMatch\<rparr>))"
proof -
  define w4 where
    "w4 = invoke ops ed (secondScan w sl sp)
            (emit (wrapNotice w)
               (invoke ops ed (firstScan w sl sp) (invoke ops ed (highlightFrom w sl sp) w)))"
  define ts2 where
    "ts2 = answerTargets ops (secondScan w sl sp) (effect ops (firstScan w sl sp) e1)"
  have sf: "searchFrom ops sl sp clr w =
              (if ts2 = [] then nothingMatched w4 else advanceTo ops (pick w ts2) w4)"
    unfolding searchFrom_unfold [OF assms(1)] Let_def w4_def ts2_def
    using assms(3,4) by (simp add: invoke_def emit_def)
  have p4: "editor w4 = editor w" "editorUUID w4 = editorUUID w"
      "searchSupport w4 = searchSupport w"
      "events w4 = events w @
          [Editor ed (highlightFrom w sl sp), Editor ed (firstScan w sl sp),
           wrapNotice w, Editor ed (secondScan w sl sp)]"
    by (simp_all add: w4_def invoke_def emit_def)
  show ?thesis
  proof (cases "ts2 = []")
    case True
    have "nothingMatched w4 =
            Inr (False, w4\<lparr>searchSupport :=
                            add (editorUUID w) (sa\<lparr>match := noMatch\<rparr>) (searchSupport w)\<rparr>)"
      using assms(2) p4 by (simp add: nothingMatched_def)
    with True show ?thesis
      unfolding sf ts2_def [symmetric]
      by (simp add: p4 hasEditor_add get_add_same ex_bool_eq)
  next
    case False
    obtain w' evs where "advanceTo ops (pick w ts2) w4 = Inr (True, w')"
        "editor w' = editor w4" "editorUUID w' = editorUUID w4"
        "\<forall>k. hasEditor k (searchSupport w') = hasEditor k (searchSupport w4)"
        "events w' = events w4 @ evs"
      using advanceTo_total [of ops "pick w ts2" w4] by blast
    with False show ?thesis
      unfolding sf ts2_def [symmetric]
      using get_hasEditor [OF assms(2)] by (simp add: p4 ex_bool_eq)
  qed
qed

text \<open>
  C5.  Find next, forward: when the scan from the start point to the end of the
  document finds nothing, the notice is shown and the range from (0, 0) to the start
  point is scanned; when that finds nothing either, the match of the record is
  (-1, -1, -1) and the answer is \<^verbatim>\<open>False\<close>, on which \<^verbatim>\<open>onNext\<close> shows ``No matches
  found'' and emits \<^verbatim>\<open>incSearchDone(False)\<close>.  No lookup in the dictionary can fail in
  \<^verbatim>\<open>__findNextPrev\<close>, and with an editor attached it always returns.
\<close>

theorem findNextPrev_forward_not_found:
  assumes "isTextEditor w" "editor w = Some ed" "\<not> findBackward w"
      and "startPoint ops w = Inr ((sl, sp), w1)"
      and "c1 = GetTargets (findText w) (regexpChecked w) (caseChecked w) (wordChecked w)
                           sl sp (-1) (-1)"
      and "c2 = GetTargets (findText w) (regexpChecked w) (caseChecked w) (wordChecked w)
                           0 0 sl sp"
      and "e1 = effect ops (highlightFrom w sl sp) (editors w ed)"
      and "answerTargets ops c1 e1 = []"
  shows "(\<exists>b w' evs.
            findNextPrev ops clr w = Inr (b, w') \<and>
            events w' = events w @
              [Editor ed (highlightFrom w sl sp), Editor ed c1,
               ShowStatusBarMessage
                 ''Reached the end of the document. Searching from the beginning...'' None,
               Editor ed c2] @ evs \<and>
            (answerTargets ops c2 (effect ops c1 e1) = [] \<longrightarrow>
               \<not> b \<and> evs = [] \<and>
               (\<exists>sa. get (editorUUID w) (searchSupport w') = Inr sa \<and> match sa = noMatch))) \<and>
         (\<forall>cw. onPrevNext cw w \<and> answerTargets ops c2 (effect ops c1 e1) = [] \<longrightarrow>
            (\<exists>w' evs. onNext ops cw clr w = Inr w' \<and>
               events w' = events w @ evs @
                 [ShowStatusBarMessage ''No matches found'' (Some 0), IncSearchDone False])) \<and>
         (\<forall>v. findNextPrev ops clr v \<noteq> Inl KeyError) \<and>
         (\<forall>v. editor v \<noteq> None \<longrightarrow> (\<exists>b v'. findNextPrev ops clr v = Inr (b, v')))"
proof -
  obtain ss where ss: "w1 = w\<lparr>searchSupport := ss\<rparr>" "hasEditor (editorUUID w) ss"
    using startPoint_total [OF assms(2), of ops] assms(4) by auto
  then obtain sa where sa: "get (editorUUID w1) (searchSupport w1) = Inr sa"
    using hasEditor_get [of "editorUUID w" ss] by auto
  have same: "highlightFrom w1 sl sp = highlightFrom w sl sp" "firstScan w1 sl sp = c1"
      "secondScan w1 sl sp = c2" "editors w1 = editors w" "events w1 = events w"
      "editor w1 = Some ed" "editorUUID w1 = editorUUID w"
      "wrapNotice w1 = ShowStatusBarMessage
                 ''Reached the end of the document. Searching from the beginning...'' None"
    using assms(2,3,5,6)
    by (simp_all add: ss highlightFrom_def firstScan_def secondScan_def wrapNotice_def)
  obtain b w2 evs where w2: "searchFrom ops sl sp clr w1 = Inr (b, w2)"
      "events w2 = events w @
             [Editor ed (highlightFrom w sl sp), Editor ed c1,
              ShowStatusBarMessage
                 ''Reached the end of the document. Searching from the beginning...'' None,
              Editor ed c2] @ evs"
      "editor w2 = Some ed" "editorUUID w2 = editorUUID w"
      "hasEditor (editorUUID w) (searchSupport w2)"
      "answerTargets ops c2 (effect ops c1 e1) = [] \<longrightarrow>
              \<not> b \<and> evs = [] \<and>
              get (editorUUID w) (searchSupport w2) = Inr (sa\<lparr>match := noMatch\<rparr>)"
    using searchFrom_wraps [of w1 ed sa e1 ops sl sp clr] sa assms(7,8)
    unfolding same by auto
  obtain w' where w': "findNextPrev ops clr w = Inr (b, w')" "events w' = events w2"
      "\<forall>sa. get (editorUUID w2) (searchSupport w2) = Inr sa \<longrightarrow>
              (\<exists>sa'. get (editorUUID w2) (searchSupport w') = Inr sa' \<and> match sa' = match sa)"
    using findNextPrev_after_startPoint [OF assms(1,2,4) w2(1,3)] w2(4,5) by auto
  have first: "\<exists>b w' evs.
            findNextPrev ops clr w = Inr (b, w') \<and>
            events w' = events w @
              [Editor ed (highlightFrom w sl sp), Editor ed c1,
               ShowStatusBarMessage
                 ''Reached the end of the document. Searching from the beginning...'' None,
               Editor ed c2] @ evs \<and>
            (answerTargets ops c2 (effect ops c1 e1) = [] \<longrightarrow>
               \<not> b \<and> evs = [] \<and>
               (\<exists>sa. get (editorUUID w) (searchSupport w') = Inr sa \<and> match sa = noMatch))"
  proof -
    have ev: "events w' = events w @
              [Editor ed (highlightFrom w sl sp), Editor ed c1,
               ShowStatusBarMessage
                 ''Reached the end of the document. Searching from the beginning...'' None,
               Editor ed c2] @ evs"
      using w'(2) w2(2) by simp
    have nf: "\<not> b \<and> evs = [] \<and>
               (\<exists>sa. get (editorUUID w) (searchSupport w') = Inr sa \<and> match sa = noMatch)"
      if a: "answerTargets ops c2 (effect ops c1 e1) = []"
    proof -
      from a w2(6) have "get (editorUUID w2) (searchSupport w2) = Inr (sa\<lparr>match := noMatch\<rparr>)"
        by (simp add: w2(4))
      with w'(3) have "\<exists>sa. get (editorUUID w) (searchSupport w') = Inr sa \<and> match sa = noMatch"
        by (auto simp: w2(4))
      with a w2(6) show ?thesis by simp
    qed
    from w'(1) ev nf show ?thesis by blast
  qed
  have total: "\<exists>b v'. findNextPrev ops clr v = Inr (b, v')" if "editor v \<noteq> None" for v
    using that findNextPrev_total [of v _ ops clr] by auto
  have signal: "\<exists>w' evs. onNext ops cw clr w = Inr w' \<and>
               events w' = events w @ evs @
                 [ShowStatusBarMessage ''No matches found'' (Some 0), IncSearchDone False]"
    if "onPrevNext cw w" "answerTargets ops c2 (effect ops c1 e1) = []" for cw
  proof -
    from first that(2) obtain w' where
        w': "findNextPrev ops clr w = Inr (False, w')"
        "events w' = events w @
              [Editor ed (highlightFrom w sl sp), Editor ed c1,
               ShowStatusBarMessage
                 ''Reached the end of the document. Searching from the beginning...'' None,
               Editor ed c2]"
      by auto
    have same: "w\<lparr>findBackward := False\<rparr> = w"
      using assms(3) by (cases w) simp
    show ?thesis
      using that(1) w'
      by (intro exI [of _ "emit (IncSearchDone False)
                             (emit (ShowStatusBarMessage ''No matches found'' (Some 0)) w')"]
                exI [of _ "[Editor ed (highlightFrom w sl sp), Editor ed c1,
               ShowStatusBarMessage
                 ''Reached the end of the document. Searching from the beginning...'' None,
               Editor ed c2]"])
         (simp add: onNext_def same emit_def)
  qed
  from first signal total findNextPrev_no_KeyError show ?thesis by blast
qed

theorem findNextPrev_forward_not_found_witness:
  "isTextEditor (attached ''abcabc'' 2 ''zz'') \<and>
   editor (attached ''abcabc'' 2 ''zz'') = Some 0 \<and>
   \<not> findBackward (attached ''abcabc'' 2 ''zz'') \<and>
   startPoint docOps (attached ''abcabc'' 2 ''zz'') =
     Inr ((0, 2), searched ''abcabc'' 2 ''zz''
                    \<lparr>line = 0, pos = 2, firstLine = 0, match = noMatch\<rparr>) \<and>
   answerTargets docOps (GetTargets ''zz'' False False False 0 2 (-1) (-1))
     (effect docOps (highlightFrom (attached ''abcabc'' 2 ''zz'') 0 2)
        (editors (attached ''abcabc'' 2 ''zz'') 0)) = [] \<and>
   answerTargets docOps (GetTargets ''zz'' False False False 0 0 0 2)
     (effect docOps (GetTargets ''zz'' False False False 0 2 (-1) (-1))
        (effect docOps (highlightFrom (attached ''abcabc'' 2 ''zz'') 0 2)
           (editors (attached ''abcabc'' 2 ''zz'') 0))) = [] \<and>
   (\<exists>w'. findNextPrev docOps True (attached ''abcabc'' 2 ''zz'') = Inr (False, w') \<and>
      events w' =
        [Editor 0 (HighlightMatch ''zz'' 0 2 False False False (Some (False, False))),
         Editor 0 (GetTargets ''zz'' False False False 0 2 (-1) (-1)),
         ShowStatusBarMessage
           ''Reached the end of the document. Searching from the beginning...'' None,
         Editor 0 (GetTargets ''zz'' False False False 0 0 0 2)] \<and>
      (\<exists>sa. get ''A'' (searchSupport w') = Inr sa \<and> match sa = noMatch)) \<and>
   onPrevNext (True, 0, ''A'') (attached ''abcabc'' 2 ''zz'') \<and>
   (\<exists>w' evs. onNext docOps (True, 0, ''A'') True (attached ''abcabc'' 2 ''zz'') = Inr w' \<and>
      events w' = evs @ [ShowStatusBarMessage ''No matches found'' (Some 0),
                         IncSearchDone False])"
proof -
  let ?w = "attached ''abcabc'' 2 ''zz''"
  let ?c1 = "GetTargets ''zz'' False False False 0 2 (-1) (-1)"
  let ?c2 = "GetTargets ''zz'' False False False 0 0 0 2"
  let ?e1 = "effect docOps (highlightFrom ?w 0 2) (editors ?w 0)"
  have h: "isTextEditor ?w" "editor ?w = Some 0" "\<not> findBackward ?w"
      "startPoint docOps ?w =
         Inr ((0, 2), searched ''abcabc'' 2 ''zz''
                        \<lparr>line = 0, pos = 2, firstLine = 0, match = noMatch\<rparr>)"
      "?c1 = GetTargets (findText ?w) (regexpChecked ?w) (caseChecked ?w) (wordChecked ?w)
                        0 2 (-1) (-1)"
      "?c2 = GetTargets (findText ?w) (regexpChecked ?w) (caseChecked ?w) (wordChecked ?w)
                        0 0 0 2"
      "?e1 = effect docOps (highlightFrom ?w 0 2) (editors ?w 0)"
      "answerTargets docOps ?c1 ?e1 = []"
    by (simp_all add: run_defs)
  have h2: "answerTargets docOps ?c2 (effect docOps ?c1 ?e1) = []"
    by (simp add: run_defs)
  have v: "events ?w = []" "editorUUID ?w = ''A''"
      "highlightFrom ?w 0 2 = HighlightMatch ''zz'' 0 2 False False False (Some (False, False))"
    by (simp_all add: run_defs)
  from findNextPrev_forward_not_found [OF h, of True] h2
  obtain b w' evs where
      "findNextPrev docOps True ?w = Inr (b, w')"
      "events w' = events ?w @
              [Editor 0 (highlightFrom ?w 0 2), Editor 0 ?c1,
               ShowStatusBarMessage
                 ''Reached the end of the document. Searching from the beginning...'' None,
               Editor 0 ?c2] @ evs"
      "\<not> b \<and> evs = [] \<and>
         (\<exists>sa. get (editorUUID ?w) (searchSupport w') = Inr sa \<and> match sa = noMatch)"
    by blast
  then have "\<exists>w'. findNextPrev docOps True ?w = Inr (False, w') \<and>
      events w' =
        [Editor 0 (HighlightMatch ''zz'' 0 2 False False False (Some (False, False))),
         Editor 0 ?c1,
         ShowStatusBarMessage
           ''Reached the end of the document. Searching from the beginning...'' None,
         Editor 0 ?c2] \<and>
      (\<exists>sa. get ''A'' (searchSupport w') = Inr sa \<and> match sa = noMatch)"
    unfolding v by auto
  moreover have pn: "onPrevNext (True, 0, ''A'') ?w"
    by (simp add: run_defs onPrevNext_def)
  moreover from findNextPrev_forward_not_found [OF h, of True, THEN conjunct2, THEN conjunct1,
                  rule_format, of "(True, 0, ''A'')"] pn h2
  have "\<exists>w' evs. onNext docOps (True, 0, ''A'') True ?w = Inr w' \<and>
      events w' = evs @ [ShowStatusBarMessage ''No matches found'' (Some 0),
                         IncSearchDone False]"
    unfolding v by auto
  ultimately show ?thesis using h(1-4,8) h2 by blast
qed

text \<open>
  C6.  Find next, forward.  When the cursor is on the start of the remembered match, the
  scan starts at the cursor column advanced by the number of characters of
  \<^verbatim>\<open>stringAt(pos, match[2])\<close>, and the record is left as it is.  When the cursor is
  elsewhere, or there is no record, the scan starts at the cursor and the record is
  anchored there with the match (-1, -1, -1).  The scan of \<^verbatim>\<open>__findNextPrev\<close> then
  starts from the start point so found.
\<close>

theorem findNextPrev_scan_start:
  assumes "isTextEditor w" "editor w = Some ed" "\<not> findBackward w"
      and "e = editors w ed" "sl = getLine ops e" "sp = getPos ops e"
  shows "(\<forall>sa len. get (editorUUID w) (searchSupport w) = Inr sa \<and> match sa = (sl, sp, len) \<longrightarrow>
            startPoint ops w =
              Inr ((sl, sp + int (length (stringAt ops e (positionFromLineIndex ops e sl sp) len))),
                   w)) \<and>
         (\<not> hasEditor (editorUUID w) (searchSupport w) \<or>
          (\<exists>sa. get (editorUUID w) (searchSupport w) = Inr sa \<and>
                (fst (match sa) \<noteq> sl \<or> fst (snd (match sa)) \<noteq> sp)) \<longrightarrow>
            startPoint ops w =
              Inr ((sl, sp),
                   w\<lparr>searchSupport :=
                       add (editorUUID w)
                         \<lparr>line = sl, pos = sp, firstLine = firstVisibleLine ops e,
                          match = noMatch\<rparr>
                         (searchSupport w)\<rparr>)) \<and>
         (\<exists>sl' sp' w1 b w' evs.
            startPoint ops w = Inr ((sl', sp'), w1) \<and>
            findNextPrev ops clr w = Inr (b, w') \<and>
            events w' = events w @
              [Editor ed (highlightFrom w sl' sp'),
               Editor ed (GetTargets (findText w) (regexpChecked w) (caseChecked w)
                                     (wordChecked w) sl' sp' (-1) (-1))] @ evs)"
proof (intro conjI allI impI)
  fix sa len
  assume "get (editorUUID w) (searchSupport w) = Inr sa \<and> match sa = (sl, sp, len)"
  then show "startPoint ops w =
              Inr ((sl, sp + int (length (stringAt ops e (positionFromLineIndex ops e sl sp) len))),
                   w)"
    using startPoint_on_match [OF assms(2,3), of sa ops len] assms(4-6) by simp
next
  assume a: "\<not> hasEditor (editorUUID w) (searchSupport w) \<or>
          (\<exists>sa. get (editorUUID w) (searchSupport w) = Inr sa \<and>
                (fst (match sa) \<noteq> sl \<or> fst (snd (match sa)) \<noteq> sp))"
  show "startPoint ops w =
              Inr ((sl, sp),
                   w\<lparr>searchSupport :=
                       add (editorUUID w)
                         \<lparr>line = sl, pos = sp, firstLine = firstVisibleLine ops e,
                          match = noMatch\<rparr>
                         (searchSupport w)\<rparr>)"
  proof (cases "hasEditor (editorUUID w) (searchSupport w)")
    case False
    then show ?thesis
      using startPoint_fresh [OF assms(2), of ops] assms(4-6) by simp
  next
    case True
    with a obtain sa where "get (editorUUID w) (searchSupport w) = Inr sa"
        "fst (match sa) \<noteq> sl \<or> fst (snd (match sa)) \<noteq> sp"
      by blast
    then show ?thesis
      using startPoint_moved [OF assms(2), of sa ops] assms(4-6) by simp
  qed
next
  obtain sl' sp' ss where sp: "startPoint ops w = Inr ((sl', sp'), w\<lparr>searchSupport := ss\<rparr>)"
      "hasEditor (editorUUID w) ss"
    using startPoint_total [OF assms(2), of ops] by blast
  obtain b w2 evs where
      sf: "searchFrom ops sl' sp' clr (w\<lparr>searchSupport := ss\<rparr>) = Inr (b, w2)"
      "events w2 = events w @
             [Editor ed (highlightFrom w sl' sp'),
              Editor ed (GetTargets (findText w) (regexpChecked w) (caseChecked w)
                                     (wordChecked w) sl' sp' (-1) (-1))] @ evs"
      "editor w2 = Some ed" "hasEditor (editorUUID w2) (searchSupport w2)"
    using searchFrom_total [of "w\<lparr>searchSupport := ss\<rparr>" ed ops sl' sp' clr] assms(2,3) sp(2)
    by (auto simp: highlightFrom_def firstScan_def)
  obtain w' where "findNextPrev ops clr w = Inr (b, w')" "events w' = events w2"
    using findNextPrev_after_startPoint [OF assms(1,2) sp(1) sf(1,3,4)] by blast
  with sp(1) sf(2) show "\<exists>sl' sp' w1 b w' evs.
            startPoint ops w = Inr ((sl', sp'), w1) \<and>
            findNextPrev ops clr w = Inr (b, w') \<and>
            events w' = events w @
              [Editor ed (highlightFrom w sl' sp'),
               Editor ed (GetTargets (findText w) (regexpChecked w) (caseChecked w)
                                     (wordChecked w) sl' sp' (-1) (-1))] @ evs"
    by (metis (no_types, lifting))
qed

theorem findNextPrev_scan_start_witness:
  "isTextEditor (searched ''abcabc'' 1 ''b'' \<lparr>line = 0, pos = 0, firstLine = 0, match = (0, 1, 2)\<rparr>) \<and>
   editor (searched ''abcabc'' 1 ''b'' \<lparr>line = 0, pos = 0, firstLine = 0, match = (0, 1, 2)\<rparr>) = Some 0 \<and>
   \<not> findBackward (searched ''abcabc'' 1 ''b'' \<lparr>line = 0, pos = 0, firstLine = 0, match = (0, 1, 2)\<rparr>) \<and>
   getLine wideOps (editors (searched ''abcabc'' 1 ''b''
                      \<lparr>line = 0, pos = 0, firstLine = 0, match = (0, 1, 2)\<rparr>) 0) = 0 \<and>
   getPos wideOps (editors (searched ''abcabc'' 1 ''b''
                      \<lparr>line = 0, pos = 0, firstLine = 0, match = (0, 1, 2)\<rparr>) 0) = 1 \<and>
   startPoint wideOps (searched ''abcabc'' 1 ''b'' \<lparr>line = 0, pos = 0, firstLine = 0, match = (0, 1, 2)\<rparr>) =
     Inr ((0, 2), searched ''abcabc'' 1 ''b'' \<lparr>line = 0, pos = 0, firstLine = 0, match = (0, 1, 2)\<rparr>) \<and>
   isTextEditor (searched ''abcabc'' 3 ''b'' recA) \<and>
   editor (searched ''abcabc'' 3 ''b'' recA) = Some 0 \<and>
   \<not> findBackward (searched ''abcabc'' 3 ''b'' recA) \<and>
   get ''A'' (searchSupport (searched ''abcabc'' 3 ''b'' recA)) = Inr recA \<and>
   fst (snd (match recA)) = 1 \<and>
   getPos docOps (editors (searched ''abcabc'' 3 ''b'' recA) 0) = 3 \<and>
   startPoint docOps (searched ''abcabc'' 3 ''b'' recA) =
     Inr ((0, 3), searched ''abcabc'' 3 ''b''
                    \<lparr>line = 0, pos = 3, firstLine = 0, match = noMatch\<rparr>)"
proof -
  let ?a = "\<lparr>line = 0, pos = 0, firstLine = 0, match = (0, 1, 2)\<rparr>"
  let ?on = "searched ''abcabc'' 1 ''b'' ?a"
  let ?off = "searched ''abcabc'' 3 ''b'' recA"
  have on: "isTextEditor ?on" "editor ?on = Some 0" "\<not> findBackward ?on"
    by (simp_all add: run_defs)
  have on': "get (editorUUID ?on) (searchSupport ?on) = Inr ?a \<and>
             match ?a = (getLine wideOps (editors ?on 0), getPos wideOps (editors ?on 0), 2)"
       "getLine wideOps (editors ?on 0) = 0" "getPos wideOps (editors ?on 0) = 1"
    by (simp_all add: run_defs wideOps_def)
  have off: "isTextEditor ?off" "editor ?off = Some 0" "\<not> findBackward ?off"
    by (simp_all add: run_defs)
  have off': "\<not> hasEditor (editorUUID ?off) (searchSupport ?off) \<or>
          (\<exists>sa. get (editorUUID ?off) (searchSupport ?off) = Inr sa \<and>
                (fst (match sa) \<noteq> getLine docOps (editors ?off 0) \<or>
                 fst (snd (match sa)) \<noteq> getPos docOps (editors ?off 0)))"
       "get ''A'' (searchSupport ?off) = Inr recA" "fst (snd (match recA)) = 1"
       "getPos docOps (editors ?off 0) = 3"
    by (simp_all add: run_defs)
  from findNextPrev_scan_start [OF on refl refl refl, of wideOps True,
         THEN conjunct1, rule_format, OF on'(1)]
  have 1: "startPoint wideOps ?on = Inr ((0, 2), ?on)"
    by (simp add: run_defs wideOps_def)
  from findNextPrev_scan_start [OF off refl refl refl, of docOps True,
         THEN conjunct2, THEN conjunct1, rule_format, OF off'(1)]
  have 2: "startPoint docOps ?off =
     Inr ((0, 3), searched ''abcabc'' 3 ''b''
                    \<lparr>line = 0, pos = 3, firstLine = 0, match = noMatch\<rparr>)"
    by (simp add: run_defs)
  from on on'(2,3) 1 off off'(2-4) 2 show ?thesis by blast
qed

text \<open>
  C8.  When one of the two scans of \<^verbatim>\<open>__searchFrom\<close> finds targets, the search advances
  to the first target of the list in the forward direction and to the last target of
  the list in the backward direction; the list is that of the first scan when it is
  not empty, and that of the scan after wrapping around otherwise.  The chosen target
  is selected in the editor and becomes the match of the record.
\<close>

theorem searchFrom_tie_break:
  assumes "editor w = Some ed" "get (editorUUID w) (searchSupport w) = Inr sa"
      and "widgetByUUID w (editorUUID w) = Some ed'"
      and "e1 = effect ops (highlightFrom w sl sp) (editors w ed)"
      and "ts1 = answerTargets ops (firstScan w sl sp) e1"
      and "ts2 = answerTargets ops (secondScan w sl sp) (effect ops (firstScan w sl sp) e1)"
      and "ts = (if ts1 = [] then ts2 else ts1)" and "ts \<noteq> []"
      and "t = (if findBackward w then last ts else hd ts)"
  shows "\<exists>w' evs eLine ePos.
           searchFrom ops sl sp clr w = Inr (True, w') \<and>
           get (editorUUID w) (searchSupport w') = Inr (sa\<lparr>match := t\<rparr>) \<and>
           events w' = events w @ evs @
             [Editor ed' (SetSelection eLine ePos (fst t) (fst (snd t))),
              Editor ed' (EnsureLineOnScreen (fst t))]"
proof -
  define w1 where "w1 = invoke ops ed (highlightFrom w sl sp) w"
  define w2 where "w2 = invoke ops ed (firstScan w sl sp) w1"
  define w2' where "w2' = (if clr then emit (ClearStatusBarMessage 0) w2 else w2)"
  define w3 where "w3 = emit (wrapNotice w) w2"
  define w4 where "w4 = invoke ops ed (secondScan w sl sp) w3"
  define v where "v = (if ts1 = [] then w4 else w2')"
  have pk: "pick w ts = t"
    using assms(8,9) by (simp add: pick_def hd_conv_nth last_conv_nth)
  have sf: "searchFrom ops sl sp clr w = advanceTo ops t v"
    unfolding searchFrom_unfold [OF assms(1)] Let_def
    using assms(4-8) pk
    by (auto simp: v_def w4_def w3_def w2'_def w2_def w1_def invoke_def emit_def)
  obtain pre where pv: "editorUUID v = editorUUID w" "searchSupport v = searchSupport w"
      "widgetByUUID v = widgetByUUID w" "events v = events w @ pre"
    by (cases "ts1 = []"; cases clr)
       (simp_all add: v_def w4_def w3_def w2'_def w2_def w1_def invoke_def emit_def)
  obtain w' evs eLine ePos where
      "advanceTo ops t v = Inr (True, w')"
      "searchSupport w' = add (editorUUID v) (sa\<lparr>match := t\<rparr>) (searchSupport v)"
      "events w' = events v @ evs @
              [Editor ed' (SetSelection eLine ePos (fst t) (fst (snd t))),
               Editor ed' (EnsureLineOnScreen (fst t))]"
    using advanceTo_present [of v sa ed' ops t] assms(2,3) pv by auto
  then have "searchFrom ops sl sp clr w = Inr (True, w') \<and>
           get (editorUUID w) (searchSupport w') = Inr (sa\<lparr>match := t\<rparr>) \<and>
           events w' = events w @ (pre @ evs) @
             [Editor ed' (SetSelection eLine ePos (fst t) (fst (snd t))),
              Editor ed' (EnsureLineOnScreen (fst t))]"
    by (simp add: sf pv get_add_same)
  then show ?thesis by blast
qed

theorem searchFrom_tie_break_witness:
  "editor (searched ''abcabc'' 0 ''b'' newSearchAttr) = Some 0 \<and>
   get ''A'' (searchSupport (searched ''abcabc'' 0 ''b'' newSearchAttr)) = Inr newSearchAttr \<and>
   widgetByUUID (searched ''abcabc'' 0 ''b'' newSearchAttr) ''A'' = Some 0 \<and>
   answerTargets docOps (GetTargets ''b'' False False False 0 0 (-1) (-1))
     (effect docOps (highlightFrom (searched ''abcabc'' 0 ''b'' newSearchAttr) 0 0)
        (editors (searched ''abcabc'' 0 ''b'' newSearchAttr) 0)) = [(0, 1, 1), (0, 4, 1)] \<and>
   (\<exists>w' evs eLine ePos.
      searchFrom docOps 0 0 True (searched ''abcabc'' 0 ''b'' newSearchAttr) = Inr (True, w') \<and>
      get ''A'' (searchSupport w') = Inr (newSearchAttr\<lparr>match := (0, 1, 1)\<rparr>) \<and>
      events w' = evs @ [Editor 0 (SetSelection eLine ePos 0 1), Editor 0 (EnsureLineOnScreen 0)]) \<and>
   findBackward ((searched ''abcabc'' 0 ''b'' newSearchAttr)\<lparr>findBackward := True\<rparr>) \<and>
   answerTargets docOps (GetTargets ''b'' False False False 0 0 0 0)
     (effect docOps (highlightFrom (searched ''abcabc'' 0 ''b'' newSearchAttr) 0 0)
        (editors (searched ''abcabc'' 0 ''b'' newSearchAttr) 0)) = [] \<and>
   (\<exists>w' evs eLine ePos.
      searchFrom docOps 0 0 True ((searched ''abcabc'' 0 ''b'' newSearchAttr)\<lparr>findBackward := True\<rparr>) =
        Inr (True, w') \<and>
      get ''A'' (searchSupport w') = Inr (newSearchAttr\<lparr>match := (0, 4, 1)\<rparr>) \<and>
      events w' = evs @ [Editor 0 (SetSelection eLine ePos 0 4), Editor 0 (EnsureLineOnScreen 0)])"
proof -
  let ?f = "searched ''abcabc'' 0 ''b'' newSearchAttr"
  let ?b = "?f\<lparr>findBackward := True\<rparr>"
  let ?e1 = "effect docOps (highlightFrom ?f 0 0) (editors ?f 0)"
  have f: "editor ?f = Some 0" "get (editorUUID ?f) (searchSupport ?f) = Inr newSearchAttr"
      "widgetByUUID ?f (editorUUID ?f) = Some 0"
    by (simp_all add: run_defs)
  have f': "get ''A'' (searchSupport ?f) = Inr newSearchAttr" "widgetByUUID ?f ''A'' = Some 0"
      "editorUUID ?f = ''A''" "events ?f = []"
      "firstScan ?f 0 0 = GetTargets ''b'' False False False 0 0 (-1) (-1)"
      "answerTargets docOps (firstScan ?f 0 0) ?e1 = [(0, 1, 1), (0, 4, 1)]"
    by (simp_all add: run_defs)
  have nb: "\<not> findBackward ?f"
    by (simp add: run_defs)
  have b: "editor ?b = Some 0" "get (editorUUID ?b) (searchSupport ?b) = Inr newSearchAttr"
      "widgetByUUID ?b (editorUUID ?b) = Some 0"
    by (simp_all add: run_defs)
  have b': "findBackward ?b" "editorUUID ?b = ''A''" "events ?b = []"
      "highlightFrom ?b 0 0 = highlightFrom ?f 0 0" "editors ?b = editors ?f"
      "firstScan ?b 0 0 = GetTargets ''b'' False False False 0 0 0 0"
      "answerTargets docOps (firstScan ?b 0 0) ?e1 = []"
      "answerTargets docOps (secondScan ?b 0 0) (effect docOps (firstScan ?b 0 0) ?e1) =
         [(0, 1, 1), (0, 4, 1)]"
    by (simp_all add: run_defs)
  have 1: "\<exists>w' evs eLine ePos.
      searchFrom docOps 0 0 True ?f = Inr (True, w') \<and>
      get ''A'' (searchSupport w') = Inr (newSearchAttr\<lparr>match := (0, 1, 1)\<rparr>) \<and>
      events w' = evs @ [Editor 0 (SetSelection eLine ePos 0 1), Editor 0 (EnsureLineOnScreen 0)]"
    using searchFrom_tie_break [OF f refl refl refl refl _ refl, of docOps 0 0 True] f' nb
    by simp
  have 2: "\<exists>w' evs eLine ePos.
      searchFrom docOps 0 0 True ?b = Inr (True, w') \<and>
      get ''A'' (searchSupport w') = Inr (newSearchAttr\<lparr>match := (0, 4, 1)\<rparr>) \<and>
      events w' = evs @ [Editor 0 (SetSelection eLine ePos 0 4), Editor 0 (EnsureLineOnScreen 0)]"
    using searchFrom_tie_break [OF b refl refl refl refl _ refl, of docOps 0 0 True] b'
    by simp
  from f(1) f'(1,2) f'(6) [unfolded f'(5)] 1 b'(1) b'(7) [unfolded b'(6)] 2
  show ?thesis by blast
qed

subsection \<open>Replace\<close>

lemma editorCalls_append: "editorCalls (xs @ ys) = editorCalls xs @ editorCalls ys"
  by (induction xs rule: editorCalls.induct) simp_all

lemma statusBar_append: "statusBar (xs @ ys) = statusBar xs @ statusBar ys"
  by (induction xs rule: statusBar.induct) simp_all

text \<open>Updating the histories touches neither an editor nor the status bar.\<close>

lemma addToHistory_frame:
  "editors (snd (addToHistory combo history text w)) = editors w"
  "editor (snd (addToHistory combo history text w)) = editor w"
  "editorUUID (snd (addToHistory combo history text w)) = editorUUID w"
  "searchSupport (snd (addToHistory combo history text w)) = searchSupport w"
  "findHistory (snd (addToHistory combo history text w)) = findHistory w"
  "replaceHistory (snd (addToHistory combo history text w)) = replaceHistory w"
  "editorCalls (events (snd (addToHistory combo history text w))) = editorCalls (events w)"
  "statusBar (events (snd (addToHistory combo history text w))) = statusBar (events w)"
  by (simp_all add: addToHistory_def emit_def Let_def editorCalls_append statusBar_append
               split: prod.splits)

lemma updateReplaceHistory_frame:
  "editors (updateReplaceHistory text rText w) = editors w"
  "editor (updateReplaceHistory text rText w) = editor w"
  "editorUUID (updateReplaceHistory text rText w) = editorUUID w"
  "searchSupport (updateReplaceHistory text rText w) = searchSupport w"
  "editorCalls (events (updateReplaceHistory text rText w)) = editorCalls (events w)"
  "statusBar (events (updateReplaceHistory text rText w)) = statusBar (events w)"
  by (simp_all add: updateReplaceHistory_def emit_def Let_def addToHistory_frame
                    editorCalls_append statusBar_append split_beta)

text \<open>
  What the loop of \<^verbatim>\<open>__onReplaceAll\<close> has done when it ends: \<open>n\<close> times a replacement
  followed by a search for the next target, and \<open>n\<close> added to the counter.
\<close>

lemma replaceLoop_result:
  "replaceLoop fuel ops ed rText found count w = Some (count', w') \<Longrightarrow>
   \<exists>n. count' = count + int n \<and> (found \<longrightarrow> 1 \<le> n) \<and>
       events w' = events w @
         concat (replicate n [Editor ed (ReplaceTarget rText), Editor ed FindNextTarget])"
proof (induction fuel arbitrary: found count w)
  case 0
  then show ?case by (cases found) simp_all
next
  case (Suc fuel)
  show ?case
  proof (cases found)
    case False
    with Suc.prems show ?thesis by simp
  next
    case True
    define w1 where "w1 = invoke ops ed (ReplaceTarget rText) w"
    define found1 where "found1 = answerBool ops FindNextTarget (editors w1 ed)"
    define w2 where "w2 = invoke ops ed FindNextTarget w1"
    from Suc.prems True
    have "replaceLoop fuel ops ed rText found1 (count + 1) w2 = Some (count', w')"
      by (simp add: callBool_def w1_def found1_def w2_def Let_def)
    from Suc.IH [OF this] obtain n where
        n: "count' = count + 1 + int n"
           "events w' = events w2 @
              concat (replicate n [Editor ed (ReplaceTarget rText), Editor ed FindNextTarget])"
      by auto
    have "events w2 = events w @ [Editor ed (ReplaceTarget rText), Editor ed FindNextTarget]"
      by (simp add: w2_def w1_def invoke_def)
    with n show ?thesis
      by (intro exI [of _ "Suc n"]) simp
  qed
qed

text \<open>
  The loop ends as soon as \<^verbatim>\<open>findNextTarget\<close> answers \<^verbatim>\<open>False\<close>: if it does so after
  the replacement number \<open>k + 1\<close> at the latest, any fuel above \<open>k\<close> is enough.
\<close>

lemma replaceLoop_terminates:
  "\<not> answerBool ops FindNextTarget
       (effect ops (ReplaceTarget rText) ((replaceStep ops rText ^^ k) (editors w ed))) \<Longrightarrow>
   k < fuel \<Longrightarrow> \<exists>r. replaceLoop fuel ops ed rText found count w = Some r"
proof (induction k arbitrary: fuel found count w)
  case 0
  then obtain f where f: "fuel = Suc f" by (cases fuel) auto
  from 0 show ?case
    by (cases found) (simp_all add: f callBool_def invoke_def Let_def)
next
  case (Suc k)
  then obtain f where f: "fuel = Suc f" "k < f" by (cases fuel) auto
  show ?case
  proof (cases found)
    case False
    then show ?thesis by simp
  next
    case True
    define w2 where "w2 = invoke ops ed FindNextTarget (invoke ops ed (ReplaceTarget rText) w)"
    have e: "editors w2 ed = replaceStep ops rText (editors w ed)"
      by (simp add: w2_def invoke_def replaceStep_def)
    from Suc.prems(1)
    have "\<not> answerBool ops FindNextTarget
            (effect ops (ReplaceTarget rText) ((replaceStep ops rText ^^ k) (editors w2 ed)))"
      by (simp add: e funpow_swap1)
    from Suc.IH [OF this f(2)] True show ?thesis
      by (simp add: f w2_def callBool_def Let_def)
  qed
qed

text \<open>
  The loop counts exactly: when \<^verbatim>\<open>findNextTarget\<close> answers \<^verbatim>\<open>True\<close> after each of the
  first \<open>k\<close> replacements and \<^verbatim>\<open>False\<close> after the next one, the loop makes \<open>k + 1\<close>
  replacements and adds \<open>k + 1\<close> to the counter.
\<close>

lemma replaceLoop_exact:
  assumes "\<forall>j<k. answerBool ops FindNextTarget
               (effect ops (ReplaceTarget rText) ((replaceStep ops rText ^^ j) (editors w ed)))"
      and "\<not> answerBool ops FindNextTarget
               (effect ops (ReplaceTarget rText) ((replaceStep ops rText ^^ k) (editors w ed)))"
      and "k < fuel"
  shows "\<exists>w'. replaceLoop fuel ops ed rText True count w = Some (count + int (Suc k), w') \<and>
           editors w' ed = (replaceStep ops rText ^^ Suc k) (editors w ed) \<and>
           events w' = events w @
             concat (replicate (Suc k) [Editor ed (ReplaceTarget rText), Editor ed FindNextTarget])"
  using assms
proof (induction k arbitrary: fuel count w)
  case 0
  then obtain f where f: "fuel = Suc f" by (cases fuel) auto
  from 0 show ?case
    by (simp add: f callBool_def invoke_def Let_def replaceStep_def)
next
  case (Suc k)
  then obtain f where f: "fuel = Suc f" "k < f" by (cases fuel) auto
  define w2 where "w2 = invoke ops ed FindNextTarget (invoke ops ed (ReplaceTarget rText) w)"
  have e: "editors w2 ed = replaceStep ops rText (editors w ed)"
    by (simp add: w2_def invoke_def replaceStep_def)
  have ev: "events w2 = events w @ [Editor ed (ReplaceTarget rText), Editor ed FindNextTarget]"
    by (simp add: w2_def invoke_def)
  from Suc.prems(1) have now: "answerBool ops FindNextTarget
               (effect ops (ReplaceTarget rText) (editors w ed))"
    by (auto dest: spec [of _ 0])
  have 1: "\<forall>j<k. answerBool ops FindNextTarget
               (effect ops (ReplaceTarget rText) ((replaceStep ops rText ^^ j) (editors w2 ed)))"
    using Suc.prems(1) by (auto simp: e funpow_swap1 dest: spec [of _ "Suc _"])
  have 2: "\<not> answerBool ops FindNextTarget
               (effect ops (ReplaceTarget rText) ((replaceStep ops rText ^^ k) (editors w2 ed)))"
    using Suc.prems(2) by (simp add: e funpow_swap1)
  from Suc.IH [OF 1 2 f(2), of "count + 1"] obtain w' where
      "replaceLoop f ops ed rText True (count + 1) w2 = Some (count + 1 + int (Suc k), w')"
      "editors w' ed = (replaceStep ops rText ^^ Suc k) (editors w2 ed)"
      "events w' = events w2 @
             concat (replicate (Suc k) [Editor ed (ReplaceTarget rText), Editor ed FindNextTarget])"
    by blast
  moreover have "replaceLoop (Suc f) ops ed rText True count w =
                 replaceLoop f ops ed rText True (count + 1) w2"
    using now by (simp add: callBool_def Let_def w2_def invoke_def)
  ultimately show ?case
    by (intro exI [of _ w']) (simp add: f e ev funpow_swap1)
qed

lemma editorCalls_rounds:
  "editorCalls (concat (replicate n [Editor ed a, Editor ed b])) =
     concat (replicate n [(ed, a), (ed, b)])"
  by (induction n) simp_all

lemma statusBar_rounds:
  "statusBar (concat (replicate n [Editor ed a, Editor ed b])) = []"
  by (induction n) simp_all

lemma replaceLoop_frame:
  "replaceLoop fuel ops ed rText found count w = Some (count', w') \<Longrightarrow>
   replaceCouldBeEnabled w' = replaceCouldBeEnabled w"
  by (induction fuel arbitrary: found count w; case_tac found)
     (auto simp: callBool_def invoke_def Let_def)

text \<open>
  C1.  \<^verbatim>\<open>__onReplaceAll\<close>, for a widget with an editor.  When \<^verbatim>\<open>findFirstTarget\<close> from
  (0, 0) answers \<^verbatim>\<open>False\<close>, the only call on the editor is that search (no undo action,
  no replacement) and the status bar gets ``No matches found. Nothing is replaced.''.
  When it answers \<^verbatim>\<open>True\<close> and the operation returns, the calls on the editor are the
  search, \<^verbatim>\<open>beginUndoAction\<close>, \<open>n \<ge> 1\<close> times \<^verbatim>\<open>replaceTarget\<close> followed by
  \<^verbatim>\<open>findNextTarget\<close>, and \<^verbatim>\<open>endUndoAction\<close>; the status bar gets ``1 occurrence
  replaced.'' for \<open>n = 1\<close> and ``\<open>n\<close> occurrences replaced.'' otherwise.  The operation
  returns whenever \<^verbatim>\<open>findNextTarget\<close> answers \<^verbatim>\<open>False\<close> after some replacement.
\<close>

theorem onReplaceAll_transaction:
  assumes "editor w = Some ed"
      and "first = FindFirstTarget (findText w) (regexpChecked w) (caseChecked w)
                                   (wordChecked w) 0 0"
      and "e0 = editors w ed"
  shows "(\<not> answerBool ops first e0 \<longrightarrow>
            (\<exists>w'. (\<forall>fuel. onReplaceAll fuel ops w = Some (Inr w')) \<and>
               editorCalls (events w') = editorCalls (events w) @ [(ed, first)] \<and>
               statusBar (events w') = statusBar (events w) @
                 [ShowStatusBarMessage ''No matches found. Nothing is replaced.'' None])) \<and>
         (answerBool ops first e0 \<longrightarrow>
            (\<forall>fuel w'. onReplaceAll fuel ops w = Some (Inr w') \<longrightarrow>
               (\<exists>n. 1 \<le> n \<and>
                  editorCalls (events w') = editorCalls (events w) @
                    [(ed, first), (ed, BeginUndoAction)] @
                    concat (replicate n [(ed, ReplaceTarget (replaceText w)),
                                         (ed, FindNextTarget)]) @
                    [(ed, EndUndoAction)] \<and>
                  statusBar (events w') = statusBar (events w) @
                    [ShowStatusBarMessage
                       (if n = 1 then ''1 occurrence replaced.''
                        else str (int n) @ '' occurrences replaced.'') None,
                     ClearStatusBarMessage 1]))) \<and>
         (answerBool ops first e0 \<longrightarrow>
            (\<forall>k fuel.
               (\<forall>j<k. answerBool ops FindNextTarget
                    (effect ops (ReplaceTarget (replaceText w))
                       ((replaceStep ops (replaceText w) ^^ j)
                          (effect ops BeginUndoAction (effect ops first e0))))) \<and>
               \<not> answerBool ops FindNextTarget
                    (effect ops (ReplaceTarget (replaceText w))
                       ((replaceStep ops (replaceText w) ^^ k)
                          (effect ops BeginUndoAction (effect ops first e0)))) \<and>
               k < fuel \<longrightarrow>
               (\<exists>w'. onReplaceAll fuel ops w = Some (Inr w') \<and>
                  editors w' ed =
                    effect ops EndUndoAction
                      ((replaceStep ops (replaceText w) ^^ Suc k)
                         (effect ops BeginUndoAction (effect ops first e0))) \<and>
                  editorCalls (events w') = editorCalls (events w) @
                    [(ed, first), (ed, BeginUndoAction)] @
                    concat (replicate (Suc k) [(ed, ReplaceTarget (replaceText w)),
                                               (ed, FindNextTarget)]) @
                    [(ed, EndUndoAction)] \<and>
                  statusBar (events w') = statusBar (events w) @
                    [ShowStatusBarMessage
                       (if k = 0 then ''1 occurrence replaced.''
                        else str (int (Suc k)) @ '' occurrences replaced.'') None,
                     ClearStatusBarMessage 1])))"
proof -
  define wh where "wh = updateReplaceHistory (findText w) (replaceText w) w"
  define w2 where "w2 = invoke ops ed first wh"
  define w3 where "w3 = invoke ops ed BeginUndoAction w2"
  have wh: "editor wh = Some ed" "editors wh = editors w"
      "editorCalls (events wh) = editorCalls (events w)"
      "statusBar (events wh) = statusBar (events w)"
    using assms(1) by (simp_all add: wh_def updateReplaceHistory_frame)
  have unfold: "onReplaceAll fuel ops w =
      (if \<not> answerBool ops first e0 then
         Some (Inr (emit (ShowStatusBarMessage ''No matches found. Nothing is replaced.'' None) w2))
       else
         case replaceLoop fuel ops ed (replaceText w) True 0 w3 of
           None \<Rightarrow> None
         | Some (count, w4) \<Rightarrow>
             Some (Inr (emit (ClearStatusBarMessage 1)
               (emit (ShowStatusBarMessage
                        (str count @ '' occurrence'' @ (if count > 1 then ''s'' else []) @
                         '' replaced.'') None)
                  ((emit (SetEnabled ReplaceAndMoveButton False)
                     (emit (SetEnabled ReplaceButton False)
                        (invoke ops ed EndUndoAction w4)))\<lparr>replaceCouldBeEnabled := False\<rparr>)))))"
    for fuel
    using wh(1,2) assms(2,3)
    by (auto simp: onReplaceAll_def Let_def callBool_def wh_def [symmetric] w2_def w3_def
             split: option.splits)
  have c2: "editorCalls (events w2) = editorCalls (events w) @ [(ed, first)]"
           "statusBar (events w2) = statusBar (events w)"
    by (simp_all add: w2_def invoke_def editorCalls_append statusBar_append wh)
  have none: "\<exists>w'. (\<forall>fuel. onReplaceAll fuel ops w = Some (Inr w')) \<and>
               editorCalls (events w') = editorCalls (events w) @ [(ed, first)] \<and>
               statusBar (events w') = statusBar (events w) @
                 [ShowStatusBarMessage ''No matches found. Nothing is replaced.'' None]"
    if "\<not> answerBool ops first e0"
    using that
    by (intro exI [of _ "emit (ShowStatusBarMessage ''No matches found. Nothing is replaced.''
                                 None) w2"])
       (simp add: unfold emit_def editorCalls_append statusBar_append c2)
  have some: "\<exists>n. 1 \<le> n \<and>
                  editorCalls (events w') = editorCalls (events w) @
                    [(ed, first), (ed, BeginUndoAction)] @
                    concat (replicate n [(ed, ReplaceTarget (replaceText w)),
                                         (ed, FindNextTarget)]) @
                    [(ed, EndUndoAction)] \<and>
                  statusBar (events w') = statusBar (events w) @
                    [ShowStatusBarMessage
                       (if n = 1 then ''1 occurrence replaced.''
                        else str (int n) @ '' occurrences replaced.'') None,
                     ClearStatusBarMessage 1]"
    if found: "answerBool ops first e0" and ret: "onReplaceAll fuel ops w = Some (Inr w')"
    for fuel w'
  proof -
    from ret found obtain count w4 where
        loop: "replaceLoop fuel ops ed (replaceText w) True 0 w3 = Some (count, w4)"
        and w': "w' = emit (ClearStatusBarMessage 1)
               (emit (ShowStatusBarMessage
                        (str count @ '' occurrence'' @ (if count > 1 then ''s'' else []) @
                         '' replaced.'') None)
                  ((emit (SetEnabled ReplaceAndMoveButton False)
                     (emit (SetEnabled ReplaceButton False)
                        (invoke ops ed EndUndoAction w4)))\<lparr>replaceCouldBeEnabled := False\<rparr>))"
      by (auto simp: unfold split: option.splits)
    from replaceLoop_result [OF loop] obtain n where
        n: "count = int n" "1 \<le> n"
           "events w4 = events w3 @
              concat (replicate n [Editor ed (ReplaceTarget (replaceText w)),
                                   Editor ed FindNextTarget])"
      by auto
    have c3: "editorCalls (events w3) =
                editorCalls (events w) @ [(ed, first), (ed, BeginUndoAction)]"
             "statusBar (events w3) = statusBar (events w)"
      by (simp_all add: w3_def invoke_def editorCalls_append statusBar_append c2)
    have msg: "str count @ '' occurrence'' @ (if count > 1 then ''s'' else []) @ '' replaced.'' =
               (if n = 1 then ''1 occurrence replaced.''
                else str (int n) @ '' occurrences replaced.'')"
      using n(1,2) by (auto simp: str_def digit_def)
    show ?thesis
      apply (rule exI [of _ n])
      apply (simp only: w' msg)
      using n(2)
      apply (simp add: n(3) emit_def invoke_def editorCalls_append statusBar_append c3
                       editorCalls_rounds statusBar_rounds)
      done
  qed
  have ends: "\<exists>w'. onReplaceAll fuel ops w = Some (Inr w') \<and>
                  editors w' ed =
                    effect ops EndUndoAction
                      ((replaceStep ops (replaceText w) ^^ Suc k)
                         (effect ops BeginUndoAction (effect ops first e0))) \<and>
                  editorCalls (events w') = editorCalls (events w) @
                    [(ed, first), (ed, BeginUndoAction)] @
                    concat (replicate (Suc k) [(ed, ReplaceTarget (replaceText w)),
                                               (ed, FindNextTarget)]) @
                    [(ed, EndUndoAction)] \<and>
                  statusBar (events w') = statusBar (events w) @
                    [ShowStatusBarMessage
                       (if k = 0 then ''1 occurrence replaced.''
                        else str (int (Suc k)) @ '' occurrences replaced.'') None,
                     ClearStatusBarMessage 1]"
    if found: "answerBool ops first e0"
       and yes: "\<forall>j<k. answerBool ops FindNextTarget
                    (effect ops (ReplaceTarget (replaceText w))
                       ((replaceStep ops (replaceText w) ^^ j)
                          (effect ops BeginUndoAction (effect ops first e0))))"
       and no: "\<not> answerBool ops FindNextTarget
                    (effect ops (ReplaceTarget (replaceText w))
                       ((replaceStep ops (replaceText w) ^^ k)
                          (effect ops BeginUndoAction (effect ops first e0))))"
       and fuel: "k < fuel" for k fuel
  proof -
    have e3: "editors w3 ed = effect ops BeginUndoAction (effect ops first e0)"
      by (simp add: w3_def w2_def invoke_def wh assms(3))
    from replaceLoop_exact [of k ops "replaceText w" w3 ed fuel 0] yes no fuel
    obtain w4 where w4:
        "replaceLoop fuel ops ed (replaceText w) True 0 w3 = Some (int (Suc k), w4)"
        "editors w4 ed = (replaceStep ops (replaceText w) ^^ Suc k) (editors w3 ed)"
        "events w4 = events w3 @
           concat (replicate (Suc k) [Editor ed (ReplaceTarget (replaceText w)),
                                      Editor ed FindNextTarget])"
      unfolding e3 by auto
    have c3: "editorCalls (events w3) =
                editorCalls (events w) @ [(ed, first), (ed, BeginUndoAction)]"
             "statusBar (events w3) = statusBar (events w)"
      by (simp_all add: w3_def invoke_def editorCalls_append statusBar_append c2)
    have msg: "str (int (Suc k)) @ '' occurrence'' @ (if int (Suc k) > 1 then ''s'' else []) @
                 '' replaced.'' =
               (if k = 0 then ''1 occurrence replaced.''
                else str (int (Suc k)) @ '' occurrences replaced.'')"
      by (auto simp: str_def digit_def)
    show ?thesis
      unfolding unfold w4(1)
      using found
      apply (simp only: if_not_P not_not option.case prod.case msg)
      apply (simp add: w4(2,3) e3 emit_def invoke_def editorCalls_append statusBar_append c3
                       editorCalls_rounds statusBar_rounds del: replicate.simps funpow.simps)
      done
  qed
  from none some ends show ?thesis by blast
qed

theorem onReplaceAll_transaction_witness:
  "editor ((attached ''aXaXa'' 0 ''a'')\<lparr>replaceText := ''b''\<rparr>) = Some 0 \<and>
   answerBool docOps (FindFirstTarget ''a'' False False False 0 0)
     (editors ((attached ''aXaXa'' 0 ''a'')\<lparr>replaceText := ''b''\<rparr>) 0) \<and>
   (\<exists>w'. onReplaceAll 3 docOps ((attached ''aXaXa'' 0 ''a'')\<lparr>replaceText := ''b''\<rparr>) =
            Some (Inr w') \<and>
      docText (editors w' 0) = ''bXbXb'' \<and>
      editorCalls (events w') =
        [(0, FindFirstTarget ''a'' False False False 0 0), (0, BeginUndoAction),
         (0, ReplaceTarget ''b''), (0, FindNextTarget),
         (0, ReplaceTarget ''b''), (0, FindNextTarget),
         (0, ReplaceTarget ''b''), (0, FindNextTarget),
         (0, EndUndoAction)] \<and>
      statusBar (events w') =
        [ShowStatusBarMessage ''3 occurrences replaced.'' None, ClearStatusBarMessage 1]) \<and>
   \<not> answerBool docOps (FindFirstTarget ''z'' False False False 0 0)
       (editors ((attached ''aXaXa'' 0 ''z'')\<lparr>replaceText := ''b''\<rparr>) 0) \<and>
   (\<exists>w'. onReplaceAll 0 docOps ((attached ''aXaXa'' 0 ''z'')\<lparr>replaceText := ''b''\<rparr>) =
            Some (Inr w') \<and>
      editorCalls (events w') = [(0, FindFirstTarget ''z'' False False False 0 0)] \<and>
      statusBar (events w') =
        [ShowStatusBarMessage ''No matches found. Nothing is replaced.'' None])"
proof -
  let ?a = "(attached ''aXaXa'' 0 ''a'')\<lparr>replaceText := ''b''\<rparr>"
  let ?z = "(attached ''aXaXa'' 0 ''z'')\<lparr>replaceText := ''b''\<rparr>"
  let ?first = "FindFirstTarget ''a'' False False False 0 0"
  let ?eb = "effect docOps BeginUndoAction (effect docOps ?first (editors ?a 0))"
  let ?step = "replaceStep docOps ''b''"
  have a: "editor ?a = Some 0"
      "?first =
         FindFirstTarget (findText ?a) (regexpChecked ?a) (caseChecked ?a) (wordChecked ?a) 0 0"
    by (simp_all add: run_defs)
  have fa: "answerBool docOps ?first (editors ?a 0)"
    by (simp add: run_defs)
  have va: "events ?a = []" "replaceText ?a = ''b''"
    by (simp_all add: run_defs)
  have eb: "?eb = \<lparr>docText = ''aXaXa'', docCursor = (0, 0), docQuery = ''a'',
                    docTarget = Some (0, 1), docResume = 0\<rparr>"
    by (simp add: run_defs)
  have s1: "?step ?eb =
              \<lparr>docText = ''bXaXa'', docCursor = (0, 0), docQuery = ''a'',
               docTarget = Some (2, 1), docResume = 1\<rparr>"
    unfolding eb by (simp add: replaceStep_def run_defs)
  have "(?step ^^ 2) ?eb = ?step (?step ?eb)"
    by (simp add: numeral_2_eq_2)
  then have s2: "(?step ^^ 2) ?eb =
              \<lparr>docText = ''bXbXa'', docCursor = (0, 0), docQuery = ''a'',
               docTarget = Some (4, 1), docResume = 3\<rparr>"
    unfolding s1 by (simp add: replaceStep_def run_defs)
  have "(?step ^^ Suc 2) ?eb = ?step ((?step ^^ 2) ?eb)"
    by (simp only: funpow.simps(2) o_apply)
  then have s3: "(?step ^^ Suc 2) ?eb =
              \<lparr>docText = ''bXbXb'', docCursor = (0, 0), docQuery = ''a'',
               docTarget = None, docResume = 5\<rparr>"
    unfolding s2 by (simp add: replaceStep_def run_defs)
  have y0: "answerBool docOps FindNextTarget (effect docOps (ReplaceTarget ''b'') ?eb)"
    unfolding eb by (simp add: run_defs)
  have y1: "answerBool docOps FindNextTarget (effect docOps (ReplaceTarget ''b'') (?step ?eb))"
    unfolding s1 by (simp add: run_defs)
  have no: "\<not> answerBool docOps FindNextTarget
                    (effect docOps (ReplaceTarget ''b'') ((?step ^^ 2) ?eb))"
    unfolding s2 by (simp add: run_defs)
  have yes: "\<forall>j<2. answerBool docOps FindNextTarget
                    (effect docOps (ReplaceTarget ''b'') ((?step ^^ j) ?eb))"
  proof (intro allI impI)
    fix j :: nat assume "j < 2"
    then consider "j = 0" | "j = 1" by linarith
    then show "answerBool docOps FindNextTarget
                    (effect docOps (ReplaceTarget ''b'') ((?step ^^ j) ?eb))"
      using y0 y1 by cases simp_all
  qed
  have hyp: "(\<forall>j<2. answerBool docOps FindNextTarget
                    (effect docOps (ReplaceTarget (replaceText ?a))
                       ((replaceStep docOps (replaceText ?a) ^^ j) ?eb))) \<and>
             \<not> answerBool docOps FindNextTarget
                    (effect docOps (ReplaceTarget (replaceText ?a))
                       ((replaceStep docOps (replaceText ?a) ^^ 2) ?eb)) \<and>
             (2::nat) < 3"
    unfolding va using yes no by simp
  have three: "str (int (Suc 2)) = ''3''"
    by (simp add: str_def digit_def)
  have rounds: "concat (replicate (Suc 2) [(0::nat, ReplaceTarget ''b''), (0, FindNextTarget)]) =
                  [(0, ReplaceTarget ''b''), (0, FindNextTarget),
                   (0, ReplaceTarget ''b''), (0, FindNextTarget),
                   (0, ReplaceTarget ''b''), (0, FindNextTarget)]"
    by (simp add: numeral_2_eq_2)
  have ended: "docText (effect docOps EndUndoAction ((?step ^^ Suc 2) ?eb)) = ''bXbXb''"
    unfolding s3 by (simp add: docOps_def)
  note run = onReplaceAll_transaction [OF a refl, of docOps, THEN conjunct2, THEN conjunct2,
               rule_format, OF fa hyp, unfolded va]
  from run obtain w' where w': "onReplaceAll 3 docOps ?a = Some (Inr w')"
      "editors w' 0 = effect docOps EndUndoAction ((?step ^^ Suc 2) ?eb)"
      "editorCalls (events w') = [] @
                    [(0, ?first), (0, BeginUndoAction)] @
                    concat (replicate (Suc 2) [(0, ReplaceTarget ''b''), (0, FindNextTarget)]) @
                    [(0, EndUndoAction)]"
      "statusBar (events w') = [] @
                    [ShowStatusBarMessage
                       (if (2::nat) = 0 then ''1 occurrence replaced.''
                        else str (int (Suc 2)) @ '' occurrences replaced.'') None,
                     ClearStatusBarMessage 1]"
    by (elim exE conjE) (simp only: editorCalls.simps statusBar.simps)
  have 1: "\<exists>w'. onReplaceAll 3 docOps ?a = Some (Inr w') \<and>
      docText (editors w' 0) = ''bXbXb'' \<and>
      editorCalls (events w') =
        [(0, ?first), (0, BeginUndoAction),
         (0, ReplaceTarget ''b''), (0, FindNextTarget),
         (0, ReplaceTarget ''b''), (0, FindNextTarget),
         (0, ReplaceTarget ''b''), (0, FindNextTarget),
         (0, EndUndoAction)] \<and>
      statusBar (events w') =
        [ShowStatusBarMessage ''3 occurrences replaced.'' None, ClearStatusBarMessage 1]"
    apply (rule exI [of _ w'])
    apply (simp only: w' ended three rounds)
    apply simp
    done
  have z: "editor ?z = Some 0"
      "FindFirstTarget ''z'' False False False 0 0 =
         FindFirstTarget (findText ?z) (regexpChecked ?z) (caseChecked ?z) (wordChecked ?z) 0 0"
    by (simp_all add: run_defs)
  have fz: "\<not> answerBool docOps (FindFirstTarget ''z'' False False False 0 0) (editors ?z 0)"
    by (simp add: run_defs)
  have vz: "events ?z = []"
    by (simp add: run_defs)
  note none = onReplaceAll_transaction [OF z refl, of docOps, THEN conjunct1, rule_format, OF fz,
                unfolded vz]
  from none have 2: "\<exists>w'. onReplaceAll 0 docOps ?z = Some (Inr w') \<and>
      editorCalls (events w') = [(0, FindFirstTarget ''z'' False False False 0 0)] \<and>
      statusBar (events w') =
        [ShowStatusBarMessage ''No matches found. Nothing is replaced.'' None]"
    by (elim exE conjE) (simp del: onReplaceAll_def)
  from a(1) fa 1 fz 2 show ?thesis by blast
qed

text \<open>
  \<^verbatim>\<open>__onReplace\<close> when \<^verbatim>\<open>findFirstTarget\<close> from the remembered match start answers
  \<^verbatim>\<open>False\<close>: the search is the only call on the editor, nothing is sent to the status
  bar and the dictionary is left as it is.
\<close>

lemma onReplace_not_found:
  assumes "get (editorUUID w) (searchSupport w) = Inr sa" "editor w = Some ed"
      and "c = FindFirstTarget (findText w) (regexpChecked w) (caseChecked w) (wordChecked w)
                               (fst (match sa)) (fst (snd (match sa)))"
      and "\<not> answerBool ops c (editors w ed)"
  shows "\<exists>w'. onReplace ops w = Inr w' \<and>
           editorCalls (events w') = editorCalls (events w) @ [(ed, c)] \<and>
           statusBar (events w') = statusBar (events w) \<and>
           searchSupport w' = searchSupport w \<and>
           editors w' = (editors w)(ed := effect ops c (editors w ed))"
  using assms
  by (cases "match sa")
     (simp add: onReplace_def Let_def callBool_def invoke_def updateReplaceHistory_frame
                editorCalls_append statusBar_append)

text \<open>
  C3.  The claim: when no match exists at or after the remembered match start,
  \<^verbatim>\<open>__onReplace\<close> reports that nothing was replaced in the status bar.  The code has no
  branch for that case.  After a search for \<open>zz\<close> that found nothing in \<open>abcabc\<close>, a
  click on Replace searches once more, sends nothing to the status bar, and leaves the
  text and the record as they are.
\<close>

theorem onReplace_silent_when_not_found:
  "map_sum id (statusBar \<circ> events)
     (onReplace docOps
        ((searched ''abcabc'' 0 ''zz'' \<lparr>line = 0, pos = 0, firstLine = 0, match = noMatch\<rparr>)
           \<lparr>replaceText := ''y''\<rparr>)) = Inr [] \<and>
   map_sum id (editorCalls \<circ> events)
     (onReplace docOps
        ((searched ''abcabc'' 0 ''zz'' \<lparr>line = 0, pos = 0, firstLine = 0, match = noMatch\<rparr>)
           \<lparr>replaceText := ''y''\<rparr>)) =
     Inr [(0, FindFirstTarget ''zz'' False False False (-1) (-1))] \<and>
   map_sum id searchSupport
     (onReplace docOps
        ((searched ''abcabc'' 0 ''zz'' \<lparr>line = 0, pos = 0, firstLine = 0, match = noMatch\<rparr>)
           \<lparr>replaceText := ''y''\<rparr>)) =
     Inr [(''A'', \<lparr>line = 0, pos = 0, firstLine = 0, match = noMatch\<rparr>)] \<and>
   map_sum id (textOf 0)
     (onReplace docOps
        ((searched ''abcabc'' 0 ''zz'' \<lparr>line = 0, pos = 0, firstLine = 0, match = noMatch\<rparr>)
           \<lparr>replaceText := ''y''\<rparr>)) = Inr ''abcabc''"
proof -
  let ?a = "\<lparr>line = 0, pos = 0, firstLine = 0, match = noMatch\<rparr>"
  let ?w = "(searched ''abcabc'' 0 ''zz'' ?a)\<lparr>replaceText := ''y''\<rparr>"
  let ?c = "FindFirstTarget ''zz'' False False False (-1) (-1)"
  have h: "get (editorUUID ?w) (searchSupport ?w) = Inr ?a" "editor ?w = Some 0"
      "?c = FindFirstTarget (findText ?w) (regexpChecked ?w) (caseChecked ?w) (wordChecked ?w)
                            (fst (match ?a)) (fst (snd (match ?a)))"
      "\<not> answerBool docOps ?c (editors ?w 0)"
    by (simp_all add: run_defs)
  have v: "events ?w = []" "searchSupport ?w = [(''A'', ?a)]"
      "docText (effect docOps ?c (editors (searched ''abcabc'' 0 ''zz'' ?a) 0)) = ''abcabc''"
    by (simp_all add: run_defs)
  from onReplace_not_found [OF h] obtain w' where
      "onReplace docOps ?w = Inr w'"
      "editorCalls (events w') = editorCalls (events ?w) @ [(0, ?c)]"
      "statusBar (events w') = statusBar (events ?w)"
      "searchSupport w' = searchSupport ?w"
      "editors w' = (editors ?w)(0 := effect docOps ?c (editors ?w 0))"
    by blast
  then show ?thesis
    by (simp add: v textOf_def)
qed

end
